theory Spec2Isabelle
  imports Complex_Main
begin

section \<open>JavaScript values shared by the modules\<close>

text \<open>
  Strings are lists of characters. An optional TypeScript value \<open>T|undefined\<close> is an
  \<open>option\<close>. The condition \<open>if (s)\<close> on a \<open>string|undefined\<close> holds when the
  string is defined and not empty.
\<close>

definition truthy :: "string option \<Rightarrow> bool" where
  "truthy v = (case v of None \<Rightarrow> False | Some s \<Rightarrow> s \<noteq> [])"

text \<open>\<open>String.prototype.endsWith\<close> and \<open>String.prototype.startsWith\<close>.\<close>

definition endsWith :: "string \<Rightarrow> string \<Rightarrow> bool" where
  "endsWith s suf = (length suf \<le> length s \<and> drop (length s - length suf) s = suf)"

definition startsWith :: "string \<Rightarrow> string \<Rightarrow> bool" where
  "startsWith s pre = (take (length pre) s = pre)"

text \<open>\<open>Number.prototype.toString\<close> on a non-negative integer: its decimal digits.\<close>

fun toString_nat :: "nat \<Rightarrow> string" where
  "toString_nat n =
     (if n < 10 then [''0123456789'' ! n]
      else toString_nat (n div 10) @ [''0123456789'' ! (n mod 10)])"

declare toString_nat.simps [simp del]

text \<open>
  A value caught by \<open>catch (e)\<close> or passed to a promise's rejection handler. Numbers and
  plain objects carry the text their own \<open>toString()\<close> gives; an \<open>Error\<close> carries its
  name, its message and the optional \<open>code\<close> of a \<open>NodeJS.ErrnoException\<close>.
\<close>

datatype js_error =
    JSUndefined
  | JSNull
  | JSString string
  | JSNumber string
  | JSError string string "string option"
  | JSObject string
  | JSOther

text \<open>\<open>new Error(message)\<close>.\<close>

definition newError :: "string \<Rightarrow> js_error" where
  "newError message = JSError ''Error'' message None"

text \<open>A settled promise: fulfilled with a value or rejected with a reason.\<close>

datatype 'a settled = Resolved 'a | Rejected js_error

section \<open>common utilities (src/unnamed/part\_001)\<close>

text \<open>
  \<open>errorToString(e, {verbose, message})\<close>, lines 61 to 106: the branches in the order of
  the source.
\<close>

definition errorToString :: "js_error \<Rightarrow> bool \<Rightarrow> string option \<Rightarrow> string" where
  "errorToString e verbose message =
     (case e of
        JSUndefined \<Rightarrow> ''<UNDEFINED>''
      | JSNull \<Rightarrow> ''<NULL>''
      | JSString s \<Rightarrow> s
      | JSNumber s \<Rightarrow> s
      | JSError ename emessage code \<Rightarrow>
          (if verbose then
             ename @ '': '' @ (case code of None \<Rightarrow> emessage | Some c \<Rightarrow> c @ '' '' @ emessage)
           else emessage)
      | JSObject s \<Rightarrow> s
      | JSOther \<Rightarrow> (case message of None \<Rightarrow> [] | Some m \<Rightarrow> m))"

subsection \<open>replaceInvalidFileNameChars\<close>

text \<open>
  Line 111 builds \<open>new RegExp("/\\?%*:|\"<>", "g")\<close>. The pattern text is
  \<^verbatim>\<open>/\?%*:|"<>\<close>, which has no character class: it is the alternation of
  \<^item> a slash, a question mark, any number of percent signs, a colon;
  \<^item> a double quote, a less-than sign, a greater-than sign.
  \<open>matchInvalidCharRegExp s\<close> is the length of the match that starts at the head of
  \<open>s\<close>, if there is one. The first alternative is tried first. The star is greedy, and
  giving a percent sign back never helps, since what follows must be a colon.
\<close>

definition matchInvalidCharRegExp :: "string \<Rightarrow> nat option" where
  "matchInvalidCharRegExp s =
     (let alt2 = (if take 3 s = [CHR 0x22, CHR ''<'', CHR ''>''] then Some (3::nat) else None)
      in case s of
           c1 # c2 # r \<Rightarrow>
             (if c1 = CHR ''/'' \<and> c2 = CHR ''?'' then
                (let k = length (takeWhile (\<lambda>c. c = CHR ''%'') r)
                 in if take 1 (drop k r) = '':'' then Some (k + 3) else alt2)
              else alt2)
         | _ \<Rightarrow> alt2)"

text \<open>
  The replacement text of \<open>String.prototype.replace\<close> is a template. The pattern has no
  capture group, so the only special sequences are \<open>$$\<close> (a dollar sign), \<open>$&\<close> (the
  match), dollar-backtick (the text before the match) and dollar-apostrophe (the text
  after it); every other character stands for itself.
\<close>

fun getSubstitution :: "string \<Rightarrow> string \<Rightarrow> string \<Rightarrow> string \<Rightarrow> string" where
  "getSubstitution matched preceding following [] = []"
| "getSubstitution matched preceding following [c] = [c]"
| "getSubstitution matched preceding following (c # d # r) =
     (if c = CHR ''$'' \<and> d = CHR ''$'' then
        CHR ''$'' # getSubstitution matched preceding following r
      else if c = CHR ''$'' \<and> d = CHR ''&'' then
        matched @ getSubstitution matched preceding following r
      else if c = CHR ''$'' \<and> d = CHR 0x60 then
        preceding @ getSubstitution matched preceding following r
      else if c = CHR ''$'' \<and> d = CHR 0x27 then
        following @ getSubstitution matched preceding following r
      else c # getSubstitution matched preceding following (d # r))"

text \<open>
  The global replace scans from the left. Where the pattern matches, the expanded
  replacement is emitted and the scan goes on behind the match; elsewhere the character
  is kept. A match has at least three characters, so the scan behind a match of length
  \<open>n\<close> that starts at \<open>c\<close> continues at \<open>drop (n - 1) r\<close>.
\<close>

fun replaceGlobal :: "string \<Rightarrow> string \<Rightarrow> string \<Rightarrow> string" where
  "replaceGlobal replacement preceding [] = []"
| "replaceGlobal replacement preceding (c # r) =
     (case matchInvalidCharRegExp (c # r) of
        None \<Rightarrow> c # replaceGlobal replacement (preceding @ [c]) r
      | Some n \<Rightarrow>
          getSubstitution (take n (c # r)) preceding (drop n (c # r)) replacement
            @ replaceGlobal replacement (preceding @ take n (c # r)) (drop (n - 1) r))"

text \<open>Lines 109 to 114. The parameter \<open>replacement\<close> defaults to an underscore.\<close>

definition replaceInvalidFileNameChars :: "string \<Rightarrow> string option \<Rightarrow> string" where
  "replaceInvalidFileNameChars s replacement =
     replaceGlobal (case replacement of None \<Rightarrow> ''_'' | Some r \<Rightarrow> r) [] s"

text \<open>The ten characters the file name must not contain.\<close>

definition invalidFileNameChars :: "char set" where
  "invalidFileNameChars =
     {CHR ''/'', CHR 0x5C, CHR ''?'', CHR ''%'', CHR ''*'', CHR '':'', CHR ''|'', CHR 0x22,
      CHR ''<'', CHR ''>''}"

subsection \<open>readTextStream\<close>

text \<open>
  \<open>maxLength\<close> is a JavaScript number: a real number, one of the two infinities, or
  NaN. The function compares it with lengths and subtracts a length from it. Every
  comparison with NaN is false. The arithmetic of the model is exact, as that of the
  platform is while the lengths stay below \<open>2^53\<close>.
\<close>

datatype js_number = Finite real | PosInfinity | NegInfinity | NaN

text \<open>\<open>x >= m\<close>, \<open>x < m\<close> and \<open>x <= m\<close> for an integer \<open>x\<close> and a number \<open>m\<close>.\<close>

fun int_ge_number :: "int \<Rightarrow> js_number \<Rightarrow> bool" where
  "int_ge_number x (Finite r) = (r \<le> of_int x)"
| "int_ge_number x PosInfinity = False"
| "int_ge_number x NegInfinity = True"
| "int_ge_number x NaN = False"

fun int_less_number :: "int \<Rightarrow> js_number \<Rightarrow> bool" where
  "int_less_number x (Finite r) = (of_int x < r)"
| "int_less_number x PosInfinity = True"
| "int_less_number x NegInfinity = False"
| "int_less_number x NaN = False"

fun int_le_number :: "int \<Rightarrow> js_number \<Rightarrow> bool" where
  "int_le_number x (Finite r) = (of_int x \<le> r)"
| "int_le_number x PosInfinity = True"
| "int_le_number x NegInfinity = False"
| "int_le_number x NaN = False"

text \<open>\<open>m - x\<close>.\<close>

fun number_minus_int :: "js_number \<Rightarrow> int \<Rightarrow> js_number" where
  "number_minus_int (Finite r) x = Finite (r - of_int x)"
| "number_minus_int PosInfinity x = PosInfinity"
| "number_minus_int NegInfinity x = NegInfinity"
| "number_minus_int NaN x = NaN"

text \<open>\<open>Math.trunc\<close>: the fraction is dropped, towards zero.\<close>

definition math_trunc :: "real \<Rightarrow> int" where
  "math_trunc r = (if 0 \<le> r then \<lfloor>r\<rfloor> else \<lceil>r\<rceil>)"

text \<open>
  A chunk is a string, of characters of some type \<open>'c\<close>, or a \<open>Buffer\<close> of bytes. The
  stream is the readable flag and the events it emits, in order.
\<close>

datatype 'c chunk = StringChunk "'c list" | BufferChunk "char list"

datatype 'c stream_event = OnData "'c chunk" | OnError js_error | OnEnd

record 'c readable_stream =
  readable :: bool
  events :: "'c stream_event list"

fun chunk_length :: "'c chunk \<Rightarrow> int" where
  "chunk_length (StringChunk s) = int (length s)"
| "chunk_length (BufferChunk b) = int (length b)"

text \<open>
  \<open>chunk.substring(0, k)\<close> takes NaN for 0, drops the fraction of \<open>k\<close> and clamps it
  into the string. \<open>chunk.slice(0, k)\<close> on a \<open>Buffer\<close> does the same, except that a
  negative \<open>k\<close> counts from the end.
\<close>

fun chunk_prefix :: "'c chunk \<Rightarrow> js_number \<Rightarrow> 'c chunk" where
  "chunk_prefix (StringChunk s) (Finite k) = StringChunk (take (nat (math_trunc k)) s)"
| "chunk_prefix (StringChunk s) PosInfinity = StringChunk s"
| "chunk_prefix (StringChunk s) NegInfinity = StringChunk []"
| "chunk_prefix (StringChunk s) NaN = StringChunk []"
| "chunk_prefix (BufferChunk b) (Finite k) =
     BufferChunk (if math_trunc k < 0 then take (nat (int (length b) + math_trunc k)) b
                  else take (nat (math_trunc k)) b)"
| "chunk_prefix (BufferChunk b) PosInfinity = BufferChunk b"
| "chunk_prefix (BufferChunk b) NegInfinity = BufferChunk []"
| "chunk_prefix (BufferChunk b) NaN = BufferChunk []"

text \<open>\<open>if (pushChunk)\<close>: the empty string is falsy, every \<open>Buffer\<close> object is truthy.\<close>

fun chunk_truthy :: "'c chunk \<Rightarrow> bool" where
  "chunk_truthy (StringChunk s) = (s \<noteq> [])"
| "chunk_truthy (BufferChunk b) = True"

text \<open>
  The state of the closure: the array \<open>chunks\<close>, the counter \<open>outLength\<close> and the
  promise, which is pending (\<open>None\<close>) until the first \<open>resolve\<close> or \<open>reject\<close>.
\<close>

record 'c read_state =
  chunks :: "'c chunk list"
  outLength :: int
  promise :: "'c list settled option"

text \<open>The \<open>'data'\<close> handler, lines 128 to 149.\<close>

definition onData :: "js_number option \<Rightarrow> 'c chunk \<Rightarrow> 'c read_state \<Rightarrow> 'c read_state" where
  "onData maxLength chunk st =
     (let pushChunk =
            (case maxLength of
               None \<Rightarrow> Some chunk
             | Some m \<Rightarrow>
                 if int_ge_number (outLength st) m then None
                 else if int_less_number (chunk_length chunk + outLength st) m then Some chunk
                 else Some (chunk_prefix chunk (number_minus_int m (outLength st))))
      in case pushChunk of
           None \<Rightarrow> st
         | Some c \<Rightarrow>
             if chunk_truthy c
             then st\<lparr>chunks := chunks st @ [c], outLength := outLength st + chunk_length c\<rparr>
             else st)"

text \<open>
  \<open>chunks.join('')\<close>: a string chunk as it is, a \<open>Buffer\<close> through its \<open>toString()\<close>,
  which decodes the bytes. The decoder belongs to the platform and is a parameter.
\<close>

definition chunkText :: "(char list \<Rightarrow> 'c list) \<Rightarrow> 'c chunk \<Rightarrow> 'c list" where
  "chunkText decode c = (case c of StringChunk s \<Rightarrow> s | BufferChunk b \<Rightarrow> decode b)"

definition joinChunks :: "(char list \<Rightarrow> 'c list) \<Rightarrow> 'c chunk list \<Rightarrow> 'c list" where
  "joinChunks decode cs = concat (map (chunkText decode) cs)"

text \<open>Settling a promise that is already settled does nothing.\<close>

definition settle :: "'c list settled \<Rightarrow> 'c read_state \<Rightarrow> 'c read_state" where
  "settle r st = (case promise st of None \<Rightarrow> st\<lparr>promise := Some r\<rparr> | Some _ \<Rightarrow> st)"

fun deliver ::
  "(char list \<Rightarrow> 'c list) \<Rightarrow> js_number option \<Rightarrow> 'c stream_event list \<Rightarrow> 'c read_state
     \<Rightarrow> 'c read_state" where
  "deliver decode maxLength [] st = st"
| "deliver decode maxLength (OnData c # es) st =
     deliver decode maxLength es (onData maxLength c st)"
| "deliver decode maxLength (OnError e # es) st =
     deliver decode maxLength es (settle (Rejected e) st)"
| "deliver decode maxLength (OnEnd # es) st =
     deliver decode maxLength es (settle (Resolved (joinChunks decode (chunks st))) st)"

text \<open>
  Lines 117 to 153. The result is the promise after all events: \<open>None\<close> when it is
  still pending.
\<close>

definition readTextStream ::
  "(char list \<Rightarrow> 'c list) \<Rightarrow> 'c readable_stream \<Rightarrow> js_number option
     \<Rightarrow> 'c list settled option" where
  "readTextStream decode inIO maxLength =
     (let st0 = \<lparr>chunks = [], outLength = 0, promise = None\<rparr>;
          st1 = (if \<not> readable inIO
                 then settle (Rejected (newError
                   ''Text stream is not readable, perhaps it has already been read.'')) st0
                 else st0)
      in promise (deliver decode maxLength (events inIO) st1))"

text \<open>
  The decoder of the platform, \<open>Buffer.prototype.toString\<close>, reads the bytes as UTF-8
  and gives UTF-16 code units, here natural numbers. It is the decoder of the Encoding
  standard: after a lead byte it needs one, two or three continuation bytes, the first
  of them within bounds that depend on the lead byte; a sequence that is cut short or
  ill-formed gives the replacement character U+FFFD and the offending byte is read
  again. \<open>utf8_continue\<close> reads the continuation bytes and returns the code point, if
  the sequence is well-formed, and the number of bytes it took.
\<close>

fun utf8_continue ::
  "nat \<Rightarrow> nat \<Rightarrow> nat \<Rightarrow> nat \<Rightarrow> nat \<Rightarrow> nat list \<Rightarrow> nat option \<times> nat" where
  "utf8_continue 0 lower upper cp taken bs = (Some cp, taken)"
| "utf8_continue (Suc needed) lower upper cp taken [] = (None, taken)"
| "utf8_continue (Suc needed) lower upper cp taken (c # bs) =
     (if lower \<le> c \<and> c \<le> upper
      then utf8_continue needed 0x80 0xBF (cp * 0x40 + (c - 0x80)) (Suc taken) bs
      else (None, taken))"

text \<open>
  One step of the decoder on the lead byte \<open>b\<close> and the bytes behind it: the code units
  it gives and the number of bytes it took behind \<open>b\<close>. A code point of a four-byte
  sequence is above U+FFFF and gives a surrogate pair.
\<close>

definition utf8_step :: "nat \<Rightarrow> nat list \<Rightarrow> nat list \<times> nat" where
  "utf8_step b bs =
     (if b < 0x80 then ([b], 0)
      else if 0xC2 \<le> b \<and> b \<le> 0xDF then
        (case utf8_continue 1 0x80 0xBF (b - 0xC0) 0 bs of
           (Some cp, taken) \<Rightarrow> ([cp], taken)
         | (None, taken) \<Rightarrow> ([0xFFFD], taken))
      else if 0xE0 \<le> b \<and> b \<le> 0xEF then
        (case utf8_continue 2 (if b = 0xE0 then 0xA0 else 0x80)
                (if b = 0xED then 0x9F else 0xBF) (b - 0xE0) 0 bs of
           (Some cp, taken) \<Rightarrow> ([cp], taken)
         | (None, taken) \<Rightarrow> ([0xFFFD], taken))
      else if 0xF0 \<le> b \<and> b \<le> 0xF4 then
        (case utf8_continue 3 (if b = 0xF0 then 0x90 else 0x80)
                (if b = 0xF4 then 0x8F else 0xBF) (b - 0xF0) 0 bs of
           (Some cp, taken) \<Rightarrow>
             ([0xD800 + (cp - 0x10000) div 0x400, 0xDC00 + (cp - 0x10000) mod 0x400], taken)
         | (None, taken) \<Rightarrow> ([0xFFFD], taken))
      else ([0xFFFD], 0))"

fun utf8_decode :: "nat list \<Rightarrow> nat list" where
  "utf8_decode [] = []"
| "utf8_decode (b # bs) =
     (case utf8_step b bs of (units, taken) \<Rightarrow> units @ utf8_decode (drop taken bs))"

definition toString_utf8 :: "char list \<Rightarrow> nat list" where
  "toString_utf8 b = utf8_decode (map of_char b)"

section \<open>SARIF download command (src/unnamed/part\_000)\<close>

subsection \<open>formatUserHubAddress\<close>

text \<open>
  The class \<open>CSHubAddress\<close> is declared in the module \<open>cs\_hub\_client\<close>; the record has
  the three fields that this module reads.
\<close>

record CSHubAddress =
  protocol :: "string option"
  hostname :: string
  port :: "nat option"

text \<open>
  Lines 44 to 55. In the template literal of line 45 the dollar sign stands behind the
  opening brace, so only \<open>username\<close> is interpolated and the rest of the literal is
  plain text.
\<close>

definition formatUserHubAddress :: "CSHubAddress \<Rightarrow> string \<Rightarrow> string" where
  "formatUserHubAddress hubAddress username =
     (let s0 = username @ ''@'' @ ''{$hubAddress.hostname}'';
          s1 = (case protocol hubAddress of None \<Rightarrow> s0 | Some p \<Rightarrow> p @ ''://'' @ s0);
          s2 = (case port hubAddress of None \<Rightarrow> s1 | Some n \<Rightarrow> s1 @ '':'' @ toString_nat n)
      in s2)"

text \<open>Line 173: the key under which the password of a hub user is kept.\<close>

definition passwordStorageKeyOf :: "CSHubAddress \<Rightarrow> string \<Rightarrow> string" where
  "passwordStorageKeyOf hubAddress username =
     ''codesonar:hubpasswd::'' @ formatUserHubAddress hubAddress username"

subsection \<open>Hub settings\<close>

text \<open>
  What the command does to the editor: input boxes, the secret storage and the log. The
  secret storage maps keys to secrets.
\<close>

datatype effect =
    ShowInputBox string
  | ShowPasswordInputBox string
  | SecretGet string
  | SecretStore string string
  | SecretDelete string
  | LogInfo string

type_synonym secret_storage = "string \<rightharpoonup> string"

text \<open>The hub entry of the workspace settings: an address, or an object of settings.\<close>

record CSHubConfig =
  cfg_address :: "string option"
  cfg_cacert :: "string option"
  cfg_hubuser :: "string option"
  cfg_hubpwfile :: "string option"
  cfg_hubcert :: "string option"
  cfg_hubkey :: "string option"

datatype hub_setting = HubAddressString string | HubConfigObject CSHubConfig

text \<open>The local variables of lines 95 to 100.\<close>

record hub_vars =
  hubAddressString :: "string option"
  hubCAFilePath :: "string option"
  hubUserName :: "string option"
  hubUserPasswordFilePath :: "string option"
  hubUserCertFilePath :: "string option"
  hubUserCertKeyFilePath :: "string option"

text \<open>
  Lines 109 to 156, the hub part: the settings are read, and when they give no address
  the user is asked for one, and then for a user name if none is known. \<open>addressInput\<close>
  and \<open>userInput\<close> are what the two input boxes return.
\<close>

definition readHubSettings ::
  "hub_setting option \<Rightarrow> string option \<Rightarrow> string option \<Rightarrow> hub_vars \<times> effect list" where
  "readHubSettings hub addressInput userInput =
     (let v0 = \<lparr>hubAddressString = None, hubCAFilePath = None, hubUserName = None,
                hubUserPasswordFilePath = None, hubUserCertFilePath = None,
                hubUserCertKeyFilePath = None\<rparr>;
          v1 = (case hub of
                  None \<Rightarrow> v0
                | Some (HubAddressString s) \<Rightarrow>
                    (if s \<noteq> [] then v0\<lparr>hubAddressString := Some s\<rparr> else v0)
                | Some (HubConfigObject c) \<Rightarrow>
                    \<lparr>hubAddressString = cfg_address c, hubCAFilePath = cfg_cacert c,
                     hubUserName = cfg_hubuser c, hubUserPasswordFilePath = cfg_hubpwfile c,
                     hubUserCertFilePath = cfg_hubcert c,
                     hubUserCertKeyFilePath = cfg_hubkey c\<rparr>)
      in if truthy (hubAddressString v1) then (v1, [])
         else if truthy addressInput \<and> \<not> truthy (hubUserName v1)
         then (v1\<lparr>hubAddressString := addressInput, hubUserName := userInput\<rparr>,
               [ShowInputBox ''Hub Address'', ShowInputBox ''Hub User''])
         else (v1\<lparr>hubAddressString := addressInput\<rparr>, [ShowInputBox ''Hub Address'']))"

subsection \<open>Connection options\<close>

text \<open>
  The function that line 215 stores in \<open>hubpasswd\<close> is a closure over the storage key,
  the user name and the address. Storing it runs nothing.
\<close>

record hubpasswd_closure =
  passwordStorageKeyString :: string
  username :: string
  address :: string

record CSHubClientConnectionOptions =
  cafile :: "string option"
  hubuser :: "string option"
  hubpwfile :: "string option"
  hubcert :: "string option"
  hubkey :: "string option"
  hubpasswd :: "hubpasswd_closure option"

text \<open>
  Lines 177 to 193: the key file path that goes with a certificate file path. A given key
  path is kept; otherwise the suffix \<open>.cert\<close> becomes \<open>.key\<close>, else the suffix
  \<open>.cert.pem\<close> becomes \<open>.key.pem\<close>, else \<open>.key\<close> is appended.
\<close>

definition defaultCertKeyFilePath :: "string \<Rightarrow> string option \<Rightarrow> string" where
  "defaultCertKeyFilePath certFilePath keyFilePath =
     (let k = (case keyFilePath of
                 Some given \<Rightarrow> Some given
               | None \<Rightarrow>
                   if endsWith certFilePath ''.cert''
                   then Some (take (length certFilePath - length ''.cert'') certFilePath @ ''.key'')
                   else if endsWith certFilePath ''.cert.pem''
                   then Some (take (length certFilePath - length ''.cert.pem'') certFilePath
                                @ ''.key.pem'')
                   else None)
      in case k of None \<Rightarrow> certFilePath @ ''.key'' | Some path \<Rightarrow> path)"

text \<open>The variables that lines 157 to 241 leave behind.\<close>

record hub_setup =
  hubAddressObject :: "CSHubAddress option"
  hubClientOptions :: CSHubClientConnectionOptions
  passwordStorageKey :: "string option"

definition nonEmpty :: "string option \<Rightarrow> string option" where
  "nonEmpty v = (if truthy v then v else None)"

text \<open>
  Lines 157 to 241. \<open>resolveFilePath\<close> is the closure of lines 79 to 88 over the
  platform's path functions, and \<open>newCSHubAddress\<close> the constructor of the address
  class, which may throw; both are parameters. The result is the thrown value, or the
  variables, the secret storage and the effects.
\<close>

definition configureHubClient ::
  "(string \<Rightarrow> string) \<Rightarrow> (string \<Rightarrow> js_error + CSHubAddress) \<Rightarrow> hub_vars \<Rightarrow> secret_storage
     \<Rightarrow> js_error + (hub_setup \<times> secret_storage \<times> effect list)" where
  "configureHubClient resolveFilePath newCSHubAddress v secrets =
     (case (case nonEmpty (hubAddressString v) of
              None \<Rightarrow> Inr None
            | Some a \<Rightarrow> (case newCSHubAddress a of Inl e \<Rightarrow> Inl e | Inr obj \<Rightarrow> Inr (Some obj))) of
        Inl e \<Rightarrow> Inl e
      | Inr addressObject \<Rightarrow>
          (let opts0 = \<lparr>cafile = map_option resolveFilePath (nonEmpty (hubCAFilePath v)),
                        hubuser = nonEmpty (hubUserName v),
                        hubpwfile = None, hubcert = None, hubkey = None, hubpasswd = None\<rparr>;
               storageKey = (case (addressObject, nonEmpty (hubUserName v)) of
                               (Some obj, Some u) \<Rightarrow> Some (passwordStorageKeyOf obj u)
                             | _ \<Rightarrow> None)
           in case nonEmpty (hubUserCertFilePath v) of
                Some certFilePath \<Rightarrow>
                  Inr (\<lparr>hubAddressObject = addressObject,
                        hubClientOptions = opts0
                          \<lparr>hubcert := Some (resolveFilePath certFilePath),
                           hubkey := Some (resolveFilePath
                             (defaultCertKeyFilePath certFilePath (hubUserCertKeyFilePath v)))\<rparr>,
                        passwordStorageKey = storageKey\<rparr>, secrets, [])
              | None \<Rightarrow>
                  (case nonEmpty (hubUserPasswordFilePath v) of
                     Some passwordFilePath \<Rightarrow>
                       Inr (\<lparr>hubAddressObject = addressObject,
                             hubClientOptions = opts0
                               \<lparr>hubpwfile := Some (resolveFilePath passwordFilePath)\<rparr>,
                             passwordStorageKey = storageKey\<rparr>,
                            (case nonEmpty storageKey of
                               None \<Rightarrow> secrets | Some k \<Rightarrow> secrets(k := None)),
                            (case nonEmpty storageKey of
                               None \<Rightarrow> [] | Some k \<Rightarrow> [SecretDelete k]))
                   | None \<Rightarrow>
                       (case (nonEmpty (hubAddressString v), nonEmpty (hubUserName v),
                              nonEmpty storageKey) of
                          (Some a, Some u, Some k) \<Rightarrow>
                            Inr (\<lparr>hubAddressObject = addressObject,
                                  hubClientOptions = opts0
                                    \<lparr>hubpasswd := Some \<lparr>passwordStorageKeyString = k,
                                                        username = u, address = a\<rparr>\<rparr>,
                                  passwordStorageKey = storageKey\<rparr>, secrets, [])
                        | _ \<Rightarrow>
                            Inr (\<lparr>hubAddressObject = addressObject, hubClientOptions = opts0,
                                  passwordStorageKey = storageKey\<rparr>, secrets, [])))))"

subsection \<open>The interactive password function\<close>

text \<open>
  Lines 215 to 240, the body of the stored function, run on the secret storage.
  \<open>inputValue\<close> is how the password input box settles: with the text, with
  \<open>undefined\<close> when the user dismisses the box, or rejected. A saved password is
  returned without asking; a typed password is stored before it is returned.
\<close>

definition passwordPrompt :: "hubpasswd_closure \<Rightarrow> string" where
  "passwordPrompt c =
     ''Enter password for CodeSonar hub user '' @ [CHR 0x27] @ username c @ [CHR 0x27]
       @ '' at '' @ [CHR 0x27] @ address c @ [CHR 0x27]"

definition hubpasswd_call ::
  "hubpasswd_closure \<Rightarrow> string option settled \<Rightarrow> secret_storage
     \<Rightarrow> string settled \<times> secret_storage \<times> effect list" where
  "hubpasswd_call c inputValue secrets =
     (let k = passwordStorageKeyString c
      in case secrets k of
           Some password \<Rightarrow>
             (Resolved password, secrets, [SecretGet k, LogInfo ''Found saved password''])
         | None \<Rightarrow>
             (case inputValue of
                Resolved None \<Rightarrow>
                  (Rejected (newError ''User cancelled password input.''), secrets,
                   [SecretGet k, ShowPasswordInputBox (passwordPrompt c)])
              | Resolved (Some typed) \<Rightarrow>
                  (Resolved typed, secrets(k \<mapsto> typed),
                   [SecretGet k, ShowPasswordInputBox (passwordPrompt c), SecretStore k typed])
              | Rejected e \<Rightarrow>
                  (Rejected e, secrets,
                   [SecretGet k, ShowPasswordInputBox (passwordPrompt c)])))"

subsection \<open>The sign-in block\<close>

text \<open>
  Lines 245 to 270: \<open>try\<close>, \<open>catch\<close> and \<open>finally\<close> around the awaited
  \<open>hubClient.signIn()\<close>, whose value is read as a boolean. \<open>signInOutcome\<close> is how that
  promise settles. The first component of the result is the error the block throws, if
  any; the \<open>finally\<close> clause deletes the saved password unless the sign-in succeeded.
\<close>

definition signInBlock ::
  "bool settled \<Rightarrow> string option \<Rightarrow> secret_storage
     \<Rightarrow> js_error option \<times> secret_storage \<times> effect list" where
  "signInBlock signInOutcome storageKey secrets =
     (let signInSucceeded = (case signInOutcome of Resolved b \<Rightarrow> b | Rejected _ \<Rightarrow> False);
          caught = (case signInOutcome of
                      Resolved b \<Rightarrow> (if \<not> b then Some (newError ''Access forbidden'') else None)
                    | Rejected e \<Rightarrow> Some e);
          messageHeader = ''CodeSonar hub sign-in error'';
          thrown = (case caught of
                      None \<Rightarrow> None
                    | Some e \<Rightarrow>
                        (let errorMessage = errorToString e False None
                         in Some (newError (if errorMessage \<noteq> []
                                            then messageHeader @ '': '' @ errorMessage
                                            else messageHeader))))
      in case (if \<not> signInSucceeded then nonEmpty storageKey else None) of
           Some k \<Rightarrow> (thrown, secrets(k := None), [SecretDelete k])
         | None \<Rightarrow> (thrown, secrets, []))"

subsection \<open>downloadSarifResults\<close>

record CSAnalysisInfo =
  info_id :: string
  info_name :: string

text \<open>The two fetch methods of the hub client that the download calls.\<close>

datatype sarif_fetch =
    FetchSarifAnalysisStream string
  | FetchSarifAnalysisDifferenceStream string string

datatype download_effect =
    CreateWriteStream string
  | ProgressReport nat
  | SetTimeout nat nat
  | HubFetch sarif_fetch
  | PipeToDestination
  | ShowInformationMessage string

text \<open>
  The loop of lines 515 to 523 with its constants: the step is 40 / 5 = 8 and the delay
  1000. Each round schedules one progress report (\<open>SetTimeout\<close> with the delay and the
  increment).
\<close>

function progressTimers :: "nat \<Rightarrow> nat \<Rightarrow> download_effect list" where
  "progressTimers i t =
     (if i < 40 then SetTimeout t i # progressTimers (i + 8) (t + 1000) else [])"
  by pat_completeness auto
termination
  by (relation "measure (\<lambda>(i, t). 40 - i)") auto

declare progressTimers.simps [simp del]

text \<open>
  How the copy of a fetched stream to the file ends: the destination emits \<open>'finish'\<close>,
  the destination emits \<open>'error'\<close>, or the fetched stream emits \<open>'error'\<close> and the copy
  stops.
\<close>

datatype pipe_outcome = PipeFinish | DestinationError js_error | SourceError js_error

text \<open>
  Lines 480 to 542. \<open>hubClient\<close> tells how a fetch settles: rejected, or resolved with a
  stream and the way its \<open>pipe\<close> ends. \<open>pipe\<close> returns the destination, so the handlers
  of lines 534 and 535 are on the destination: an error of the fetched stream settles
  nothing, and the promise stays pending (\<open>None\<close>). \<open>basename\<close> is the platform's
  \<open>path.basename\<close>.
\<close>

definition downloadSarifResults ::
  "(string \<Rightarrow> string) \<Rightarrow> (sarif_fetch \<Rightarrow> pipe_outcome settled) \<Rightarrow> string \<Rightarrow> CSAnalysisInfo
     \<Rightarrow> CSAnalysisInfo option \<Rightarrow> unit settled option \<times> download_effect list" where
  "downloadSarifResults basename hubClient destinationFilePath analysisInfo baseAnalysisInfo =
     (let analysisId = info_id analysisInfo;
          baseAnalysisId = map_option info_id baseAnalysisInfo;
          destinationFileName = basename destinationFilePath;
          started = [CreateWriteStream destinationFilePath, ProgressReport 0]
                      @ progressTimers 8 1000;
          request = (case baseAnalysisId of
                       Some b \<Rightarrow> FetchSarifAnalysisDifferenceStream analysisId b
                     | None \<Rightarrow> FetchSarifAnalysisStream analysisId)
      in case hubClient request of
           Rejected e \<Rightarrow> (Some (Rejected e), started @ [HubFetch request])
         | Resolved (DestinationError e) \<Rightarrow>
             (Some (Rejected e), started @ [HubFetch request, PipeToDestination])
         | Resolved (SourceError e) \<Rightarrow>
             (None, started @ [HubFetch request, PipeToDestination])
         | Resolved PipeFinish \<Rightarrow>
             (Some (Resolved ()),
              started @ [HubFetch request, PipeToDestination,
                         ShowInformationMessage
                           (''Downloaded CodeSonar Analysis to '' @ [CHR 0x27]
                              @ destinationFileName @ [CHR 0x27])]))"

text \<open>The hub fetches among the effects of a download.\<close>

fun hubFetches :: "download_effect list \<Rightarrow> sarif_fetch list" where
  "hubFetches [] = []"
| "hubFetches (HubFetch r # es) = r # hubFetches es"
| "hubFetches (_ # es) = hubFetches es"

text \<open>
  Modelled from the spec: the two fetch methods are methods of the class \<open>CSHubClient\<close>
  of the module \<open>cs\_hub\_client\<close>, which is not among the sources, and the URL of a
  request is made there. By sections 4.5 and 6 of the specification the fetch of one
  analysis is a GET keyed by the identifier of the analysis, and the difference fetch is
  a GET keyed by the identifiers of the analysis and of the baseline, both encoded into
  the path or the query, with a URL shape of its own. The specification gives no text of
  a URL: the model keeps the shape and the identifiers encoded, in order.
\<close>

datatype url_shape = SingleAnalysisShape | AnalysisDifferenceShape

record request_url =
  urlShape :: url_shape
  urlIdentifiers :: "string list"

fun requestUrl :: "sarif_fetch \<Rightarrow> request_url" where
  "requestUrl (FetchSarifAnalysisStream analysisId) =
     \<lparr>urlShape = SingleAnalysisShape, urlIdentifiers = [analysisId]\<rparr>"
| "requestUrl (FetchSarifAnalysisDifferenceStream analysisId baseAnalysisId) =
     \<lparr>urlShape = AnalysisDifferenceShape, urlIdentifiers = [analysisId, baseAnalysisId]\<rparr>"

section \<open>Hub session (module cs\_hub\_client)\<close>

text \<open>
  Modelled from the spec: the class \<open>CSHubClient\<close> with its constructor and its method
  \<open>signIn\<close> lives in the module \<open>cs\_hub\_client\<close>, which is not among the sources; only
  its callers are. The definitions of this section follow sections 3, 4.2, 4.4 and 7 of
  the specification.
\<close>

datatype hub_exception =
    ConnectionError js_error
  | AuthCancelled js_error
  | CredentialResolutionError js_error
  | NotFound
  | AuthRequired
  | StreamError js_error

datatype failure_reason = Rejection string | Exception hub_exception

datatype auth_state = Unauthenticated | Authenticating | Authenticated | Failed failure_reason

datatype CredentialSpec =
    ClientCertificate string string
  | PasswordFile string
  | InteractivePassword hubpasswd_closure

datatype credential = CertificatePair string string | Password string

datatype server_reply = Confirmed "string option" | Declined string

datatype signin_result = SignedIn | AuthRejected string

record HubSession =
  authState :: auth_state
  sessionToken :: "string option"
  credentialSpec :: "CredentialSpec option"

text \<open>
  What a sign-in meets outside the client: the files that can be read, how the password
  input box settles, and how the sign-in request fares on the transport (rejected when
  the server cannot be reached, else the server's reply).
\<close>

record hub_environment =
  fileContents :: "string \<Rightarrow> string option"
  passwordInput :: "string option settled"
  transport :: "credential option \<Rightarrow> server_reply settled"

text \<open>
  Modelled from the spec: the precedence of section 3 over the connection options of
  section 6, the certificate pair being the two paths as the download command sets them.
\<close>

definition credentialOfOptions :: "CSHubClientConnectionOptions \<Rightarrow> CredentialSpec option" where
  "credentialOfOptions opts =
     (case (hubcert opts, hubkey opts) of
        (Some c, Some k) \<Rightarrow> Some (ClientCertificate c k)
      | _ \<Rightarrow>
          (case hubpwfile opts of
             Some p \<Rightarrow> Some (PasswordFile p)
           | None \<Rightarrow> map_option InteractivePassword (hubpasswd opts)))"

text \<open>
  Modelled from the spec: the constructor only records its arguments; credentials are
  resolved lazily, by the sign-in.
\<close>

definition newCSHubClient :: "CSHubAddress \<Rightarrow> CSHubClientConnectionOptions \<Rightarrow> HubSession" where
  "newCSHubClient hubAddress opts =
     \<lparr>authState = Unauthenticated, sessionToken = None,
      credentialSpec = credentialOfOptions opts\<rparr>"

text \<open>
  Modelled from the spec, section 4.2: a certificate pair and a password file are read
  from their files and fail with a resolution error when a file cannot be read; the
  interactive password comes from the injected function, whose rejection is a
  cancellation.
\<close>

definition resolveCredential ::
  "hub_environment \<Rightarrow> CredentialSpec \<Rightarrow> secret_storage
     \<Rightarrow> (hub_exception + credential) \<times> secret_storage \<times> effect list" where
  "resolveCredential env spec secrets =
     (case spec of
        ClientCertificate certPath keyPath \<Rightarrow>
          (case (fileContents env certPath, fileContents env keyPath) of
             (Some c, Some k) \<Rightarrow> (Inr (CertificatePair c k), secrets, [])
           | (None, _) \<Rightarrow>
               (Inl (CredentialResolutionError (newError (''File not found: '' @ certPath))),
                secrets, [])
           | (_, None) \<Rightarrow>
               (Inl (CredentialResolutionError (newError (''File not found: '' @ keyPath))),
                secrets, []))
      | PasswordFile path \<Rightarrow>
          (case fileContents env path of
             Some p \<Rightarrow> (Inr (Password p), secrets, [])
           | None \<Rightarrow>
               (Inl (CredentialResolutionError (newError (''File not found: '' @ path))),
                secrets, []))
      | InteractivePassword provider \<Rightarrow>
          (case hubpasswd_call provider (passwordInput env) secrets of
             (Resolved p, secrets', effs) \<Rightarrow> (Inr (Password p), secrets', effs)
           | (Rejected e, secrets', effs) \<Rightarrow> (Inl (AuthCancelled e), secrets', effs)))"

text \<open>
  Modelled from the spec, section 4.4: the request of a sign-in attempt. A confirmation
  authenticates the session and keeps the token; a refusal is returned as a result; a
  transport failure is raised. Both leave the session failed.
\<close>

definition requestSignIn ::
  "hub_environment \<Rightarrow> credential option \<Rightarrow> HubSession
     \<Rightarrow> (hub_exception + signin_result) \<times> HubSession" where
  "requestSignIn env cred session =
     (case transport env cred of
        Resolved (Confirmed token) \<Rightarrow>
          (Inr SignedIn, session\<lparr>authState := Authenticated, sessionToken := token\<rparr>)
      | Resolved (Declined reason) \<Rightarrow>
          (Inr (AuthRejected reason), session\<lparr>authState := Failed (Rejection reason)\<rparr>)
      | Rejected e \<Rightarrow>
          (Inl (ConnectionError e),
           session\<lparr>authState := Failed (Exception (ConnectionError e))\<rparr>))"

text \<open>
  Modelled from the spec, section 4.4: \<open>signIn\<close>. On an authenticated session it
  succeeds at once. The specification gives it no behaviour on a session that is in the
  middle of a sign-in: the model returns \<open>None\<close> there. Otherwise the credential is
  resolved, a failure of the resolution is raised, and the request is sent.
\<close>

definition signIn ::
  "hub_environment \<Rightarrow> HubSession \<Rightarrow> secret_storage
     \<Rightarrow> ((hub_exception + signin_result) \<times> HubSession \<times> secret_storage \<times> effect list) option" where
  "signIn env session secrets =
     (case authState session of
        Authenticated \<Rightarrow> Some (Inr SignedIn, session, secrets, [])
      | Authenticating \<Rightarrow> None
      | _ \<Rightarrow>
          (case credentialSpec session of
             None \<Rightarrow>
               (case requestSignIn env None session of
                  (r, session') \<Rightarrow> Some (r, session', secrets, []))
           | Some spec \<Rightarrow>
               (case resolveCredential env spec secrets of
                  (Inl ex, secrets', effs) \<Rightarrow>
                    Some (Inl ex, session\<lparr>authState := Failed (Exception ex)\<rparr>, secrets', effs)
                | (Inr cred, secrets', effs) \<Rightarrow>
                    (case requestSignIn env (Some cred) session of
                       (r, session') \<Rightarrow> Some (r, session', secrets', effs)))))"

text \<open>
  Modelled from the spec, section 7: an exception reaches the caller with its original
  cause, which is the value that a \<open>catch\<close> receives.
\<close>

fun thrownValue :: "hub_exception \<Rightarrow> js_error" where
  "thrownValue (ConnectionError e) = e"
| "thrownValue (AuthCancelled e) = e"
| "thrownValue (CredentialResolutionError e) = e"
| "thrownValue NotFound = newError ''Not found''"
| "thrownValue AuthRequired = newError ''Sign-in required''"
| "thrownValue (StreamError e) = e"

text \<open>
  How the download command reads the settled sign-in (lines 247 to 250): the promise
  resolves with a boolean that is false when the hub refused the credentials, and is
  rejected when the sign-in raised.
\<close>

fun signInAsBoolean :: "hub_exception + signin_result \<Rightarrow> bool settled" where
  "signInAsBoolean (Inl ex) = Rejected (thrownValue ex)"
| "signInAsBoolean (Inr SignedIn) = Resolved True"
| "signInAsBoolean (Inr (AuthRejected reason)) = Resolved False"

text \<open>
  Lines 242 to 271 of the download command, on the session model: the client is made
  when there is an address object, signed in, and the sign-in block handles the outcome.
\<close>

definition signInPhase ::
  "hub_environment \<Rightarrow> hub_setup \<Rightarrow> secret_storage
     \<Rightarrow> js_error option \<times> secret_storage \<times> effect list" where
  "signInPhase env su secrets =
     (case hubAddressObject su of
        None \<Rightarrow> (None, secrets, [])
      | Some obj \<Rightarrow>
          (case signIn env (newCSHubClient obj (hubClientOptions su)) secrets of
             None \<Rightarrow> (None, secrets, [])
           | Some (r, session', secrets', effs) \<Rightarrow>
               (case signInBlock (signInAsBoolean r) (passwordStorageKey su) secrets' of
                  (thrown, secrets'', effs') \<Rightarrow> (thrown, secrets'', effs @ effs'))))"

section \<open>Command-line front ends\<close>

text \<open>
  What a run of a front end leaves behind: the texts written to the error stream, the
  bodies piped to the output stream, the codes passed to \<open>onExit\<close>, the calls made on
  the client, and whether an exception left \<open>main\<close> uncaught.
\<close>

datatype cli_call =
    ClientSignIn
  | ClientFetch string
  | ReadFile string
  | HttpRequest string

record cli_run =
  stderrWrites :: "string list"
  stdoutPipes :: "string list"
  exitCodes :: "nat list"
  clientCalls :: "cli_call list"
  uncaught :: bool

definition endl :: string where
  "endl = [CHR 0x0A]"

definition unrecognizedOption :: "string \<Rightarrow> string" where
  "unrecognizedOption arg = ''Unrecognized option: '' @ [CHR 0x27] @ arg @ [CHR 0x27] @ ''.''"

definition unexpectedArgument :: "string \<Rightarrow> string" where
  "unexpectedArgument arg = ''Unexpected argument: '' @ [CHR 0x27] @ arg @ [CHR 0x27] @ ''.''"

subsection \<open>Hub client front end (src/src/cs\_hub\_client\_exec.ts)\<close>

record exec_vars =
  errorMessage :: "string option"
  hubAddress :: "string option"
  targetUrlString :: "string option"
  cacertFilePath :: "string option"
  userName :: "string option"
  userPasswordFilePath :: "string option"
  userCertFilePath :: "string option"
  userKeyFilePath :: "string option"

text \<open>The option names that lines 30 to 59 know; each takes the next argument as its value.\<close>

definition exec_knownOption :: "string \<Rightarrow> bool" where
  "exec_knownOption arg =
     (arg = ''--cacert'' \<or> arg = ''-hubuser'' \<or> arg = ''--hubuser'' \<or> arg = ''-hubpwfile''
      \<or> arg = ''--hubpwfile'' \<or> arg = ''-hubcert'' \<or> arg = ''--hubcert'' \<or> arg = ''-hubkey''
      \<or> arg = ''--hubkey'')"

text \<open>
  The loop of lines 28 to 72 over the arguments from \<open>argIndex\<close> on. It stops once an
  error message is set. An option at the very end, with no value behind it, changes
  nothing.
\<close>

fun exec_parseArgs :: "string list \<Rightarrow> exec_vars \<Rightarrow> exec_vars" where
  "exec_parseArgs [] v = v"
| "exec_parseArgs (arg # rest) v =
     (if truthy (errorMessage v) then v
      else if arg = ''--cacert'' then
        (case rest of [] \<Rightarrow> v
         | x # rest' \<Rightarrow> exec_parseArgs rest' (v\<lparr>cacertFilePath := Some x\<rparr>))
      else if arg = ''-hubuser'' \<or> arg = ''--hubuser'' then
        (case rest of [] \<Rightarrow> v
         | x # rest' \<Rightarrow> exec_parseArgs rest' (v\<lparr>userName := Some x\<rparr>))
      else if arg = ''-hubpwfile'' \<or> arg = ''--hubpwfile'' then
        (case rest of [] \<Rightarrow> v
         | x # rest' \<Rightarrow> exec_parseArgs rest' (v\<lparr>userPasswordFilePath := Some x\<rparr>))
      else if arg = ''-hubcert'' \<or> arg = ''--hubcert'' then
        (case rest of [] \<Rightarrow> v
         | x # rest' \<Rightarrow> exec_parseArgs rest' (v\<lparr>userCertFilePath := Some x\<rparr>))
      else if arg = ''-hubkey'' \<or> arg = ''--hubkey'' then
        (case rest of [] \<Rightarrow> v
         | x # rest' \<Rightarrow> exec_parseArgs rest' (v\<lparr>userKeyFilePath := Some x\<rparr>))
      else if startsWith arg ''-'' then
        exec_parseArgs rest (v\<lparr>errorMessage := Some (unrecognizedOption arg)\<rparr>)
      else if hubAddress v = None then
        exec_parseArgs rest (v\<lparr>hubAddress := Some arg\<rparr>)
      else if targetUrlString v = None then
        exec_parseArgs rest (v\<lparr>targetUrlString := Some arg\<rparr>)
      else exec_parseArgs rest (v\<lparr>errorMessage := Some (unexpectedArgument arg)\<rparr>))"

text \<open>
  Lines 74 to 79: the messages for a missing positional argument, after the loop, which
  starts at index 1.
\<close>

definition exec_checkArgs :: "string list \<Rightarrow> exec_vars" where
  "exec_checkArgs argv =
     (let v0 = exec_parseArgs (drop 1 argv)
                 \<lparr>errorMessage = None, hubAddress = None, targetUrlString = None,
                  cacertFilePath = None, userName = None, userPasswordFilePath = None,
                  userCertFilePath = None, userKeyFilePath = None\<rparr>;
          v1 = (if \<not> truthy (errorMessage v0) \<and> \<not> truthy (hubAddress v0)
                then v0\<lparr>errorMessage := Some ''Missing Hub Address argument.''\<rparr> else v0);
          v2 = (if \<not> truthy (errorMessage v1) \<and> \<not> truthy (targetUrlString v1)
                then v1\<lparr>errorMessage := Some ''Missing URL argument.''\<rparr> else v1)
      in v2)"

text \<open>
  The values that reach \<open>errorHandler\<close>, of type \<open>Error|string\<close>, and their
  \<open>toString()\<close>: an error prints its name and its message.
\<close>

datatype error_or_string = ErrorObject string string | StringValue string

fun toString_error :: "error_or_string \<Rightarrow> string" where
  "toString_error (ErrorObject n m) = (if n = [] then m else if m = [] then n else n @ '': '' @ m)"
| "toString_error (StringValue s) = s"

datatype 'a promised = Fulfilled 'a | RejectedWith error_or_string

text \<open>\<open>new CSHubUserKey(cert, key)\<close> of the module \<open>csonar\_ex\<close>, as the arguments it is given.\<close>

datatype CSHubUserKey = CSHubUserKey string string

record exec_options =
  exec_cafile :: "string option"
  exec_hubuser :: "string option"
  exec_hubpwfile :: "string option"
  exec_hubkey :: "CSHubUserKey option"

text \<open>Lines 85 to 101: every scheme that was given on the command line is passed on.\<close>

definition exec_hubOptions :: "exec_vars \<Rightarrow> exec_options" where
  "exec_hubOptions v =
     \<lparr>exec_cafile = nonEmpty (cacertFilePath v),
      exec_hubuser = nonEmpty (userName v),
      exec_hubpwfile = nonEmpty (userPasswordFilePath v),
      exec_hubkey =
        (if truthy (userCertFilePath v) \<or> truthy (userKeyFilePath v)
         then Some (CSHubUserKey
                (case userCertFilePath v of Some c \<Rightarrow> c
                 | None \<Rightarrow> (case userKeyFilePath v of Some k \<Rightarrow> k | None \<Rightarrow> []))
                (case userKeyFilePath v of Some k \<Rightarrow> k
                 | None \<Rightarrow> (case userCertFilePath v of Some c \<Rightarrow> c | None \<Rightarrow> [])))
         else None)\<rparr>"

text \<open>
  The hub client as the front end meets it: whether the constructor throws for an
  address and options, how \<open>signIn()\<close> settles (its value is read as an optional
  message), and how \<open>fetch\<close> settles for a path (with the body of the response).
\<close>

record exec_hub =
  constructorThrows :: "string \<Rightarrow> exec_options \<Rightarrow> bool"
  signInSettles :: "string option promised"
  fetchSettles :: "string \<Rightarrow> string promised"

definition exec_errorHandler :: "cli_call list \<Rightarrow> error_or_string \<Rightarrow> cli_run" where
  "exec_errorHandler calls e =
     \<lparr>stderrWrites = [toString_error e @ endl], stdoutPipes = [], exitCodes = [1],
      clientCalls = calls, uncaught = False\<rparr>"

text \<open>Lines 11 to 123.\<close>

definition exec_main :: "exec_hub \<Rightarrow> string list \<Rightarrow> cli_run" where
  "exec_main hub argv =
     (let v = exec_checkArgs argv
      in case nonEmpty (errorMessage v) of
           Some m \<Rightarrow>
             \<lparr>stderrWrites = [m @ endl], stdoutPipes = [], exitCodes = [2],
              clientCalls = [], uncaught = False\<rparr>
         | None \<Rightarrow>
             (case (nonEmpty (targetUrlString v), nonEmpty (hubAddress v)) of
                (Some targetUrlPath, Some hubAddr) \<Rightarrow>
                  (if constructorThrows hub hubAddr (exec_hubOptions v) then
                     \<lparr>stderrWrites = [], stdoutPipes = [], exitCodes = [],
                      clientCalls = [], uncaught = True\<rparr>
                   else
                     (case signInSettles hub of
                        RejectedWith e \<Rightarrow> exec_errorHandler [ClientSignIn] e
                      | Fulfilled message \<Rightarrow>
                          (case nonEmpty message of
                             Some m \<Rightarrow>
                               exec_errorHandler [ClientSignIn]
                                 (StringValue (''Hub sign-in rejected: '' @ m))
                           | None \<Rightarrow>
                               (case fetchSettles hub targetUrlPath of
                                  Fulfilled body \<Rightarrow>
                                    \<lparr>stderrWrites = [], stdoutPipes = [body], exitCodes = [0],
                                     clientCalls = [ClientSignIn, ClientFetch targetUrlPath],
                                     uncaught = False\<rparr>
                                | RejectedWith e \<Rightarrow>
                                    exec_errorHandler
                                      [ClientSignIn, ClientFetch targetUrlPath] e))))
              | _ \<Rightarrow>
                  \<lparr>stderrWrites = [], stdoutPipes = [], exitCodes = [],
                   clientCalls = [], uncaught = False\<rparr>))"

subsection \<open>HTTP client front end (src/unnamed/part\_002)\<close>

record http_vars =
  http_errorMessage :: "string option"
  http_targetUrlString :: "string option"
  http_cacertFilePath :: "string option"

text \<open>The loop of lines 26 to 49; \<open>--cacert\<close> is the only option it knows.\<close>

fun http_parseArgs :: "string list \<Rightarrow> http_vars \<Rightarrow> http_vars" where
  "http_parseArgs [] v = v"
| "http_parseArgs (arg # rest) v =
     (if truthy (http_errorMessage v) then v
      else if arg = ''--cacert'' then
        (case rest of [] \<Rightarrow> v
         | x # rest' \<Rightarrow> http_parseArgs rest' (v\<lparr>http_cacertFilePath := Some x\<rparr>))
      else if startsWith arg ''-'' then
        http_parseArgs rest (v\<lparr>http_errorMessage := Some (unrecognizedOption arg)\<rparr>)
      else if http_targetUrlString v = None then
        http_parseArgs rest (v\<lparr>http_targetUrlString := Some arg\<rparr>)
      else http_parseArgs rest (v\<lparr>http_errorMessage := Some (unexpectedArgument arg)\<rparr>))"

definition http_checkArgs :: "string list \<Rightarrow> http_vars" where
  "http_checkArgs argv =
     (let v0 = http_parseArgs (drop 1 argv)
                 \<lparr>http_errorMessage = None, http_targetUrlString = None,
                  http_cacertFilePath = None\<rparr>;
          v1 = (if \<not> truthy (http_errorMessage v0) \<and> \<not> truthy (http_targetUrlString v0)
                then v0\<lparr>http_errorMessage := Some ''Missing URL argument.''\<rparr> else v0)
      in v1)"

text \<open>
  The platform and the connection as the front end meets them: whether \<open>new URL\<close>
  accepts the text, what \<open>readFile\<close> gives for the certificate file (the message of
  the error, or the data), and how the request settles (with the body of the response).
  The front end imports \<open>errorToString\<close> from the module \<open>errors\_ex\<close> (line 6), which
  is not among the sources: \<open>errorText\<close> is the text that it gives for a rejected value.
\<close>

record http_env =
  urlAccepted :: "string \<Rightarrow> bool"
  readFileGives :: "string \<Rightarrow> string + char list"
  requestSettles :: "string \<Rightarrow> string settled"
  errorText :: "js_error \<Rightarrow> string"

text \<open>The closure \<open>doRequest\<close>, lines 68 to 84.\<close>

definition http_doRequest :: "http_env \<Rightarrow> cli_call list \<Rightarrow> string \<Rightarrow> cli_run" where
  "http_doRequest env calls targetUrl =
     (case requestSettles env targetUrl of
        Resolved body \<Rightarrow>
          \<lparr>stderrWrites = [''start request...'' @ endl, ''read response...'' @ endl],
           stdoutPipes = [body], exitCodes = [0],
           clientCalls = calls @ [HttpRequest targetUrl], uncaught = False\<rparr>
      | Rejected e \<Rightarrow>
          \<lparr>stderrWrites = [''start request...'' @ endl, errorText env e @ endl],
           stdoutPipes = [], exitCodes = [1],
           clientCalls = calls @ [HttpRequest targetUrl], uncaught = False\<rparr>)"

text \<open>Lines 14 to 107.\<close>

definition http_main :: "http_env \<Rightarrow> string list \<Rightarrow> cli_run" where
  "http_main env argv =
     (let v = http_checkArgs argv
      in case nonEmpty (http_errorMessage v) of
           Some m \<Rightarrow>
             \<lparr>stderrWrites = [m @ endl], stdoutPipes = [], exitCodes = [2],
              clientCalls = [], uncaught = False\<rparr>
         | None \<Rightarrow>
             (case nonEmpty (http_targetUrlString v) of
                None \<Rightarrow>
                  \<lparr>stderrWrites = [], stdoutPipes = [], exitCodes = [],
                   clientCalls = [], uncaught = False\<rparr>
              | Some targetUrl \<Rightarrow>
                  (if \<not> urlAccepted env targetUrl then
                     \<lparr>stderrWrites = [], stdoutPipes = [], exitCodes = [],
                      clientCalls = [], uncaught = True\<rparr>
                   else
                     (case nonEmpty (http_cacertFilePath v) of
                        None \<Rightarrow> http_doRequest env [] targetUrl
                      | Some path \<Rightarrow>
                          (case readFileGives env path of
                             Inl errMessage \<Rightarrow>
                               \<lparr>stderrWrites = [errMessage @ endl], stdoutPipes = [],
                                exitCodes = [1], clientCalls = [ReadFile path],
                                uncaught = False\<rparr>
                           | Inr data \<Rightarrow> http_doRequest env [ReadFile path] targetUrl)))))"

section \<open>Notions used in the statements and the proofs\<close>

text \<open>
  While \<open>readTextStream\<close> collects chunks under a bound \<open>m\<close>, the counter stays within
  the bound, the joined text is no longer than the counter says, and a promise that is
  resolved holds a text within the bound.
\<close>

definition read_inv :: "(char list \<Rightarrow> 'c list) \<Rightarrow> js_number \<Rightarrow> 'c read_state \<Rightarrow> bool" where
  "read_inv decode m st =
     (int_le_number (outLength st) m
      \<and> int (length (joinChunks decode (chunks st))) \<le> outLength st
      \<and> (case promise st of
            Some (Resolved s) \<Rightarrow> int_le_number (int (length s)) m
          | _ \<Rightarrow> True))"

text \<open>The chunk that the \<open>'data'\<close> handler decides to push, if any.\<close>

definition pushChoice :: "js_number \<Rightarrow> 'c chunk \<Rightarrow> int \<Rightarrow> 'c chunk option" where
  "pushChoice m chunk out =
     (if int_ge_number out m then None
      else if int_less_number (chunk_length chunk + out) m then Some chunk
      else Some (chunk_prefix chunk (number_minus_int m out)))"

text \<open>
  The claim's words, as a definition of their own: the chunks of the stream, truncated
  at a boundary of \<open>n\<close> units, the chunks behind the boundary discarded. A string chunk
  counts by its characters and a \<open>Buffer\<close> chunk by its bytes.
\<close>

fun takeUnits :: "nat \<Rightarrow> 'c chunk \<Rightarrow> 'c chunk" where
  "takeUnits n (StringChunk s) = StringChunk (take n s)"
| "takeUnits n (BufferChunk b) = BufferChunk (take n b)"

fun chunksTruncatedAt :: "nat \<Rightarrow> 'c chunk list \<Rightarrow> 'c chunk list" where
  "chunksTruncatedAt n [] = []"
| "chunksTruncatedAt n (c # cs) =
     (if n = 0 then []
      else if nat (chunk_length c) \<le> n then c # chunksTruncatedAt (n - nat (chunk_length c)) cs
      else [takeUnits n c])"

text \<open>
  The number of credential schemes that a set of connection options carries: the
  certificate pair, the password file, the interactive password function.
\<close>

definition honoredSchemes :: "CSHubClientConnectionOptions \<Rightarrow> nat" where
  "honoredSchemes opts =
     (if hubcert opts \<noteq> None \<or> hubkey opts \<noteq> None then 1 else 0)
     + (if hubpwfile opts \<noteq> None then 1 else 0)
     + (if hubpasswd opts \<noteq> None then 1 else 0)"

text \<open>
  Notions for the front ends. The only option name that the HTTP front end knows is
  \<open>--cacert\<close>. An argument list has a stray flag when some argument starts with a
  dash, is no known option, and does not directly follow a known option name. The three
  ways a run can end: a usage error, a runtime failure with a message, a success with a
  body.
\<close>

definition http_knownOption :: "string \<Rightarrow> bool" where
  "http_knownOption arg = (arg = ''--cacert'')"

definition strayFlag :: "(string \<Rightarrow> bool) \<Rightarrow> string list \<Rightarrow> bool" where
  "strayFlag known args =
     (\<exists>i \<in> {..<length args}. startsWith (args ! i) ''-'' \<and> \<not> known (args ! i)
         \<and> (i = 0 \<or> \<not> known (args ! (i - 1))))"

definition usageError :: "cli_run \<Rightarrow> bool" where
  "usageError run =
     (exitCodes run = [2] \<and> clientCalls run = [] \<and> stdoutPipes run = [] \<and> \<not> uncaught run
      \<and> (case stderrWrites run of [w] \<Rightarrow> endsWith w endl \<and> 1 < length w | _ \<Rightarrow> False))"

definition runtimeFailure :: "string \<Rightarrow> cli_run \<Rightarrow> bool" where
  "runtimeFailure msg run =
     (exitCodes run = [1] \<and> stdoutPipes run = [] \<and> stderrWrites run \<noteq> []
      \<and> last (stderrWrites run) = msg @ endl)"

definition success :: "string \<Rightarrow> cli_run \<Rightarrow> bool" where
  "success body run = (exitCodes run = [0] \<and> stdoutPipes run = [body])"

section \<open>Properties of the common utilities\<close>

subsection \<open>replaceInvalidFileNameChars\<close>

text \<open>
  Claim C9 says that \<open>replaceInvalidFileNameChars(s, r)\<close> replaces every occurrence of
  each of the ten characters, so that none of them is left in the result. The pattern of
  line 111 is not a character class, it matches two fixed sequences. On the file name
  \<open>a/b:c\<close> it matches nowhere: the name comes back unchanged, with its slash and its
  colon, although both are among the ten characters.
\<close>

theorem replaceInvalidFileNameChars_keeps_slash:
  "replaceInvalidFileNameChars ''a/b:c'' None = ''a/b:c''
   \<and> CHR ''/'' \<in> invalidFileNameChars
   \<and> CHR ''/'' \<in> set (replaceInvalidFileNameChars ''a/b:c'' None)"
  by (simp add: replaceInvalidFileNameChars_def matchInvalidCharRegExp_def
      invalidFileNameChars_def)

subsection \<open>readTextStream\<close>

lemma utf8_continue_taken:
  "utf8_continue needed lower upper cp taken bs = (r, taken') \<Longrightarrow>
   taken' \<le> taken + length bs \<and> (r \<noteq> None \<longrightarrow> taken' = taken + needed)"
proof (induction needed lower upper cp taken bs arbitrary: r taken'
    rule: utf8_continue.induct)
  case (1 lower upper cp taken bs)
  then show ?case by simp
next
  case (2 needed lower upper cp taken)
  then show ?case by auto
next
  case (3 needed lower upper cp taken c bs)
  show ?case
  proof (cases "lower \<le> c \<and> c \<le> upper")
    case True
    with 3 show ?thesis by fastforce
  next
    case False
    with 3 show ?thesis by auto
  qed
qed

lemma utf8_continue_units:
  assumes "utf8_continue needed lower upper cp 0 bs = (r, taken)"
  shows "taken \<le> length bs \<and> (r \<noteq> None \<longrightarrow> taken = needed)"
  using utf8_continue_taken[OF assms] by simp

lemma utf8_step_length:
  assumes s: "utf8_step b bs = (units, taken)"
  shows "length units \<le> Suc taken \<and> taken \<le> length bs"
proof -
  consider (ascii) "b < 0x80"
    | (two) "\<not> b < 0x80" "0xC2 \<le> b \<and> b \<le> 0xDF"
    | (three) "\<not> b < 0x80" "\<not> (0xC2 \<le> b \<and> b \<le> 0xDF)" "0xE0 \<le> b \<and> b \<le> 0xEF"
    | (four) "\<not> b < 0x80" "\<not> (0xC2 \<le> b \<and> b \<le> 0xDF)" "\<not> (0xE0 \<le> b \<and> b \<le> 0xEF)"
        "0xF0 \<le> b \<and> b \<le> 0xF4"
    | (bad) "\<not> b < 0x80" "\<not> (0xC2 \<le> b \<and> b \<le> 0xDF)" "\<not> (0xE0 \<le> b \<and> b \<le> 0xEF)"
        "\<not> (0xF0 \<le> b \<and> b \<le> 0xF4)"
    by blast
  then show ?thesis
  proof cases
    case ascii
    with s have "units = [b]" "taken = 0" by (simp_all add: utf8_step_def)
    then show ?thesis by simp
  next
    case two
    obtain r t where c: "utf8_continue 1 0x80 0xBF (b - 0xC0) 0 bs = (r, t)"
      by (cases "utf8_continue 1 0x80 0xBF (b - 0xC0) 0 bs")
    from s two c have "taken = t" "length units = 1"
      by (cases r; simp add: utf8_step_def; fastforce)+
    with utf8_continue_units[OF c] show ?thesis by simp
  next
    case three
    obtain r t where c: "utf8_continue 2 (if b = 0xE0 then 0xA0 else 0x80)
                (if b = 0xED then 0x9F else 0xBF) (b - 0xE0) 0 bs = (r, t)"
      by (cases "utf8_continue 2 (if b = 0xE0 then 0xA0 else 0x80)
                (if b = 0xED then 0x9F else 0xBF) (b - 0xE0) 0 bs")
    from s three c have "taken = t" "length units = 1"
      by (cases r; simp add: utf8_step_def; fastforce)+
    with utf8_continue_units[OF c] show ?thesis by simp
  next
    case four
    obtain r t where c: "utf8_continue 3 (if b = 0xF0 then 0x90 else 0x80)
                (if b = 0xF4 then 0x8F else 0xBF) (b - 0xF0) 0 bs = (r, t)"
      by (cases "utf8_continue 3 (if b = 0xF0 then 0x90 else 0x80)
                (if b = 0xF4 then 0x8F else 0xBF) (b - 0xF0) 0 bs")
    from s four c have "taken = t" "length units = (if r = None then 1 else 2)"
      by (cases r; simp add: utf8_step_def; fastforce)+
    with utf8_continue_units[OF c] show ?thesis by auto
  next
    case bad
    with s have "units = [0xFFFD]" "taken = 0" by (simp_all add: utf8_step_def)
    then show ?thesis by simp
  qed
qed

lemma utf8_decode_length: "length (utf8_decode bs) \<le> length bs"
proof (induction bs rule: length_induct)
  case (1 bs)
  show ?case
  proof (cases bs)
    case Nil
    then show ?thesis by simp
  next
    case (Cons b r)
    obtain units taken where s: "utf8_step b r = (units, taken)"
      by (cases "utf8_step b r")
    from utf8_step_length[OF s] have l: "length units \<le> Suc taken" "taken \<le> length r"
      by simp_all
    have "length (drop taken r) < length bs" by (simp add: Cons)
    with 1 have "length (utf8_decode (drop taken r)) \<le> length (drop taken r)"
      by blast
    with l have "length (units @ utf8_decode (drop taken r)) \<le> Suc (length r)"
      by simp
    then show ?thesis by (simp add: Cons s)
  qed
qed

lemma toString_utf8_length: "length (toString_utf8 b) \<le> length b"
  using utf8_decode_length[of "map of_char b"] by (simp add: toString_utf8_def)

lemma toString_utf8_empty: "toString_utf8 [] = []"
  by (simp add: toString_utf8_def)

lemma toString_utf8_euro: "toString_utf8 [CHR 0xE2, CHR 0x82, CHR 0xAC] = [0x20AC]"
  by (simp add: toString_utf8_def utf8_step_def numeral_2_eq_2)

lemma toString_utf8_cut: "toString_utf8 [CHR 0xE2] = [0xFFFD]"
  by (simp add: toString_utf8_def utf8_step_def numeral_2_eq_2)

lemma int_le_number_trans: "x \<le> y \<Longrightarrow> int_le_number y m \<Longrightarrow> int_le_number x m"
  by (cases m) simp_all

lemma joinChunks_snoc:
  "joinChunks decode (cs @ [c]) = joinChunks decode cs @ chunkText decode c"
  by (simp add: joinChunks_def)

lemma chunkText_length:
  "\<forall>b. length (decode b) \<le> length b \<Longrightarrow>
   int (length (chunkText decode c)) \<le> chunk_length c"
  by (cases c) (auto simp: chunkText_def)

lemma chunkText_falsy: "\<not> chunk_truthy c \<Longrightarrow> chunkText decode c = [] \<and> chunk_length c = 0"
  by (cases c) (auto simp: chunkText_def)

lemma onData_pushChoice:
  "onData (Some m) c st =
     (case pushChoice m c (outLength st) of
        None \<Rightarrow> st
      | Some p \<Rightarrow>
          if chunk_truthy p
          then st\<lparr>chunks := chunks st @ [p], outLength := outLength st + chunk_length p\<rparr>
          else st)"
  by (simp add: onData_def pushChoice_def Let_def)

lemma onData_pushed:
  assumes "pushChoice m c (outLength st) = Some p"
  shows "joinChunks decode (chunks (onData (Some m) c st))
           = joinChunks decode (chunks st) @ chunkText decode p
         \<and> outLength (onData (Some m) c st) = outLength st + chunk_length p
         \<and> promise (onData (Some m) c st) = promise st"
  using assms chunkText_falsy[of p decode]
  by (cases "chunk_truthy p") (simp_all add: onData_pushChoice joinChunks_snoc)

lemma onData_skipped:
  assumes "pushChoice m c (outLength st) = None"
  shows "onData (Some m) c st = st"
  using assms by (simp add: onData_pushChoice)

lemma math_trunc_nonneg: "0 \<le> k \<Longrightarrow> math_trunc k = \<lfloor>k\<rfloor>"
  by (simp add: math_trunc_def)

lemma chunk_prefix_Finite:
  "0 \<le> k \<Longrightarrow> chunk_prefix c (Finite k) = takeUnits (nat \<lfloor>k\<rfloor>) c"
  by (cases c) (simp_all add: math_trunc_nonneg)

lemma takeUnits_length: "chunk_length (takeUnits n c) = min (chunk_length c) (int n)"
  by (cases c) auto

lemma takeUnits_all: "nat (chunk_length c) \<le> n \<Longrightarrow> takeUnits n c = c"
  by (cases c) auto

lemma chunkText_empty:
  "decode [] = [] \<Longrightarrow> chunk_length c = 0 \<Longrightarrow> chunkText decode c = []"
  by (cases c) (auto simp: chunkText_def)

lemma chunk_length_nonneg: "0 \<le> chunk_length c"
  by (cases c) auto

lemma read_inv_onData:
  assumes d: "\<forall>b. length (decode b) \<le> length b" and i: "read_inv decode m st"
  shows "read_inv decode m (onData (Some m) c st)"
proof (cases "pushChoice m c (outLength st)")
  case None
  with i show ?thesis by (simp add: onData_skipped)
next
  case (Some p)
  note pushed = onData_pushed[OF Some, of decode]
  have fits: "int_le_number (outLength st + chunk_length p) m"
  proof (cases m)
    case (Finite r)
    show ?thesis
    proof (cases "real_of_int (chunk_length c + outLength st) < r")
      case True
      with Some Finite have "p = c"
        by (auto simp: pushChoice_def split: if_splits)
      with True Finite show ?thesis by (simp add: add.commute)
    next
      case False
      with Some Finite have p: "p = chunk_prefix c (Finite (r - real_of_int (outLength st)))"
        and pos: "0 \<le> r - real_of_int (outLength st)"
        by (auto simp: pushChoice_def split: if_splits)
      have fk: "0 \<le> \<lfloor>r - real_of_int (outLength st)\<rfloor>"
        using pos by (simp only: zero_le_floor)
      have "chunk_length p \<le> \<lfloor>r - real_of_int (outLength st)\<rfloor>"
        unfolding p chunk_prefix_Finite[OF pos] takeUnits_length
        using fk by linarith
      then have "real_of_int (chunk_length p)
              \<le> real_of_int \<lfloor>r - real_of_int (outLength st)\<rfloor>"
        by (simp only: of_int_le_iff)
      also have "\<dots> \<le> r - real_of_int (outLength st)" by simp
      finally show ?thesis using Finite by simp
    qed
  next
    case PosInfinity
    then show ?thesis by simp
  next
    case NegInfinity
    with i show ?thesis by (simp add: read_inv_def)
  next
    case NaN
    with i show ?thesis by (simp add: read_inv_def)
  qed
  from i chunkText_length[OF d, of p] have
    "int (length (joinChunks decode (chunks st) @ chunkText decode p))
       \<le> outLength st + chunk_length p"
    by (simp add: read_inv_def)
  with i fits pushed show ?thesis
    by (simp add: read_inv_def)
qed

lemma read_inv_settle_rejected:
  "read_inv decode m st \<Longrightarrow> read_inv decode m (settle (Rejected e) st)"
  by (auto simp: read_inv_def settle_def split: option.splits settled.splits)

lemma read_inv_settle_resolved:
  assumes "read_inv decode m st"
  shows "read_inv decode m (settle (Resolved (joinChunks decode (chunks st))) st)"
proof -
  from assms have "int_le_number (int (length (joinChunks decode (chunks st)))) m"
    by (auto simp: read_inv_def intro: int_le_number_trans)
  with assms show ?thesis
    by (auto simp: read_inv_def settle_def split: option.splits settled.splits)
qed

lemma read_inv_deliver:
  assumes d: "\<forall>b. length (decode b) \<le> length b"
  shows "read_inv decode m st \<Longrightarrow> read_inv decode m (deliver decode (Some m) es st)"
proof (induction es arbitrary: st)
  case Nil
  then show ?case by simp
next
  case (Cons e es)
  then show ?case
    by (cases e)
      (simp_all add: read_inv_onData[OF d] read_inv_settle_rejected read_inv_settle_resolved)
qed

lemma readTextStream_length:
  assumes d: "\<forall>b. length (decode b) \<le> length b" and m: "int_le_number 0 m"
    and r: "readTextStream decode inIO (Some m) = Some (Resolved s)"
  shows "int_le_number (int (length s)) m"
proof -
  let ?st0 = "\<lparr>chunks = [], outLength = 0, promise = None\<rparr> :: 'a read_state"
  let ?st1 = "if \<not> readable inIO then settle (Rejected (newError
                ''Text stream is not readable, perhaps it has already been read.'')) ?st0
              else ?st0"
  have "read_inv decode m ?st0" using m by (simp add: read_inv_def joinChunks_def)
  then have "read_inv decode m ?st1" by (simp add: read_inv_settle_rejected)
  then have "read_inv decode m (deliver decode (Some m) (events inIO) ?st1)"
    by (rule read_inv_deliver[OF d])
  with r show ?thesis
    by (simp add: readTextStream_def read_inv_def Let_def)
qed

lemma chunksTruncatedAt_0 [simp]: "chunksTruncatedAt 0 cs = []"
  by (cases cs) simp_all

lemma onData_truncated:
  assumes e: "decode [] = []" and r: "0 \<le> r"
    and lo: "0 \<le> outLength st" and hi: "outLength st \<le> \<lfloor>r\<rfloor>"
  shows "0 \<le> outLength (onData (Some (Finite r)) c st)
     \<and> outLength (onData (Some (Finite r)) c st) \<le> \<lfloor>r\<rfloor>
     \<and> promise (onData (Some (Finite r)) c st) = promise st
     \<and> joinChunks decode (chunks (onData (Some (Finite r)) c st))
         @ joinChunks decode
             (chunksTruncatedAt
                (nat \<lfloor>r\<rfloor> - nat (outLength (onData (Some (Finite r)) c st))) cs)
       = joinChunks decode (chunks st)
         @ joinChunks decode (chunksTruncatedAt (nat \<lfloor>r\<rfloor> - nat (outLength st)) (c # cs))"
proof -
  let ?out = "outLength st"
  let ?n = "nat \<lfloor>r\<rfloor> - nat ?out"
  let ?l = "chunk_length c"
  have l0: "0 \<le> ?l" by (rule chunk_length_nonneg)
  have n: "int ?n = \<lfloor>r\<rfloor> - ?out" using lo hi r by simp
  show ?thesis
  proof (cases "r \<le> real_of_int ?out")
    case True
    then have "\<lfloor>r\<rfloor> \<le> ?out" by (simp add: floor_le_iff)
    with hi have "?n = 0" by simp
    moreover from True have "onData (Some (Finite r)) c st = st"
      by (simp add: onData_skipped pushChoice_def)
    ultimately show ?thesis using lo hi by (simp add: chunksTruncatedAt_0)
  next
    case below: False
    show ?thesis
    proof (cases "real_of_int (?l + ?out) < r")
      case True
      with below have ch: "pushChoice (Finite r) c ?out = Some c"
        by (simp add: pushChoice_def)
      note pushed = onData_pushed[OF ch, of decode]
      from True have fit: "?l + ?out \<le> \<lfloor>r\<rfloor>" by (simp add: le_floor_iff)
      with l0 lo have ln: "nat ?l \<le> ?n" by linarith
      have n': "nat \<lfloor>r\<rfloor> - nat (?out + ?l) = ?n - nat ?l" using l0 lo by linarith
      show ?thesis
      proof (cases "?n = 0")
        case True
        with ln l0 have "?l = 0" by simp
        with chunkText_empty[where decode = decode, OF e] have "chunkText decode c = []" by simp
        with pushed True \<open>?l = 0\<close> lo hi show ?thesis by simp
      next
        case False
        with ln have "chunksTruncatedAt ?n (c # cs) = c # chunksTruncatedAt (?n - nat ?l) cs"
          by simp
        with pushed fit l0 lo n' show ?thesis
          by (simp add: joinChunks_def add.commute)
      qed
    next
      case False
      from below have pos: "0 \<le> r - real_of_int ?out" by simp
      have fl: "\<lfloor>r - real_of_int ?out\<rfloor> = \<lfloor>r\<rfloor> - ?out" by simp
      have nn: "nat (\<lfloor>r\<rfloor> - ?out) = ?n" using n by linarith
      from below False have ch: "pushChoice (Finite r) c ?out = Some (takeUnits ?n c)"
        using chunk_prefix_Finite[OF pos, of c]
        by (simp add: pushChoice_def fl nn)
      note pushed = onData_pushed[OF ch, of decode]
      from False have "r \<le> real_of_int (?l + ?out)" by simp
      then have "\<lfloor>r\<rfloor> \<le> ?l + ?out" by (simp add: floor_le_iff)
      with n have nl: "int ?n \<le> ?l" by simp
      then have len: "chunk_length (takeUnits ?n c) = int ?n"
        by (simp add: takeUnits_length)
      have out': "?out + int ?n = \<lfloor>r\<rfloor>" using n by simp
      have n'0: "nat \<lfloor>r\<rfloor> - nat (?out + int ?n) = 0" by (simp only: out' diff_self_eq_0)
      have tx: "joinChunks decode (chunksTruncatedAt ?n (c # cs))
              = chunkText decode (takeUnits ?n c)"
      proof (cases "?n = 0")
        case True
        have "chunk_length (takeUnits 0 c) = 0" by (simp add: takeUnits_length l0)
        from chunkText_empty[where decode = decode, OF e this] True show ?thesis
          by (simp add: joinChunks_def)
      next
        case False
        show ?thesis
        proof (cases "nat ?l \<le> ?n")
          case True
          with nl have "?n - nat ?l = 0" by linarith
          with False True takeUnits_all[OF True] show ?thesis
            by (simp add: joinChunks_def)
        next
          case big: False
          with False show ?thesis by (simp add: joinChunks_def)
        qed
      qed
      with pushed len out' n'0 lo r show ?thesis
        by (simp add: joinChunks_def)
    qed
  qed
qed

lemma deliver_truncated:
  assumes e: "decode [] = []" and r: "0 \<le> r"
  shows "0 \<le> outLength st \<Longrightarrow> outLength st \<le> \<lfloor>r\<rfloor> \<Longrightarrow>
     promise (deliver decode (Some (Finite r)) (map OnData cs) st) = promise st
     \<and> joinChunks decode (chunks (deliver decode (Some (Finite r)) (map OnData cs) st))
       = joinChunks decode (chunks st)
         @ joinChunks decode (chunksTruncatedAt (nat \<lfloor>r\<rfloor> - nat (outLength st)) cs)"
proof (induction cs arbitrary: st)
  case Nil
  then show ?case by (simp add: joinChunks_def)
next
  case (Cons c cs)
  from onData_truncated[where decode = decode, OF e r Cons.prems, of c cs]
  have s: "0 \<le> outLength (onData (Some (Finite r)) c st)"
    "outLength (onData (Some (Finite r)) c st) \<le> \<lfloor>r\<rfloor>"
    "promise (onData (Some (Finite r)) c st) = promise st"
    "joinChunks decode (chunks (onData (Some (Finite r)) c st))
         @ joinChunks decode
             (chunksTruncatedAt
                (nat \<lfloor>r\<rfloor> - nat (outLength (onData (Some (Finite r)) c st))) cs)
       = joinChunks decode (chunks st)
         @ joinChunks decode (chunksTruncatedAt (nat \<lfloor>r\<rfloor> - nat (outLength st)) (c # cs))"
    by blast+
  from Cons.IH[OF s(1,2)] s(3,4) show ?case
    by (simp del: chunksTruncatedAt.simps)
qed

lemma deliver_append:
  "deliver decode maxLength (es @ fs) st =
     deliver decode maxLength fs (deliver decode maxLength es st)"
proof (induction es arbitrary: st)
  case Nil
  then show ?case by simp
next
  case (Cons e es)
  then show ?case by (cases e) simp_all
qed

lemma readTextStream_truncated:
  assumes e: "decode [] = []" and r: "0 \<le> r"
  shows "readTextStream decode \<lparr>readable = True, events = map OnData cs @ [OnEnd]\<rparr>
           (Some (Finite r))
         = Some (Resolved (joinChunks decode (chunksTruncatedAt (nat \<lfloor>r\<rfloor>) cs)))"
proof -
  let ?st0 = "\<lparr>chunks = [], outLength = 0, promise = None\<rparr> :: 'a read_state"
  have "0 \<le> outLength ?st0" "outLength ?st0 \<le> \<lfloor>r\<rfloor>" using r by simp_all
  from deliver_truncated[where decode = decode, OF e r this, of cs] show ?thesis
    by (simp add: readTextStream_def deliver_append settle_def joinChunks_def)
qed

lemma deliver_unbounded:
  "promise (deliver decode (Some PosInfinity) (map OnData cs) st) = promise st
   \<and> joinChunks decode (chunks (deliver decode (Some PosInfinity) (map OnData cs) st))
     = joinChunks decode (chunks st) @ joinChunks decode cs"
proof (induction cs arbitrary: st)
  case Nil
  then show ?case by (simp add: joinChunks_def)
next
  case (Cons c cs)
  have ch: "pushChoice PosInfinity c (outLength st) = Some c"
    by (simp add: pushChoice_def)
  from onData_pushed[OF ch, of decode] Cons[of "onData (Some PosInfinity) c st"]
  show ?case by (simp add: joinChunks_def)
qed

lemma readTextStream_unbounded:
  "readTextStream decode \<lparr>readable = True, events = map OnData cs @ [OnEnd]\<rparr>
     (Some PosInfinity)
   = Some (Resolved (joinChunks decode cs))"
  using deliver_unbounded[of decode cs "\<lparr>chunks = [], outLength = 0, promise = None\<rparr>"]
  by (simp add: readTextStream_def deliver_append settle_def joinChunks_def)

lemma strings_truncated:
  "joinChunks decode (chunksTruncatedAt n (map StringChunk ss)) = take n (concat ss)"
proof (induction ss arbitrary: n)
  case Nil
  then show ?case by (simp add: joinChunks_def)
next
  case (Cons s ss)
  show ?case
  proof (cases "n = 0")
    case True
    then show ?thesis by (simp add: joinChunks_def)
  next
    case False
    show ?thesis
    proof (cases "length s \<le> n")
      case True
      with False Cons[of "n - length s"] show ?thesis
        by (simp add: joinChunks_def chunkText_def)
    next
      case big: False
      with False show ?thesis by (simp add: joinChunks_def chunkText_def)
    qed
  qed
qed

text \<open>
  Claim C10 says that for every defined \<open>maxLength\<close> the text that \<open>readTextStream\<close>
  resolves with is at most \<open>maxLength\<close> long, and is the concatenation of the chunks
  truncated at the \<open>maxLength\<close> boundary. Three inputs show where the code does
  otherwise. With the bound -1 the guard of line 133 holds at once, and with the bound
  NaN no comparison holds and the prefix taken is empty: both times the promise resolves
  with the empty text, whose length 0 is not within the bound. With the bound 1 and a
  \<open>Buffer\<close> that holds the three bytes of the euro sign, line 143 keeps the first byte,
  which decodes to the replacement character, while the text of the chunk is the euro
  sign, one character long.
\<close>

theorem readTextStream_outside_the_claim:
  "readTextStream toString_utf8
     \<lparr>readable = True, events = [OnData (StringChunk [0x61, 0x62, 0x63]), OnEnd]\<rparr>
     (Some (Finite (- 1)))
     = Some (Resolved [])
   \<and> \<not> int_le_number (int (length ([] :: nat list))) (Finite (- 1))
   \<and> readTextStream toString_utf8
       \<lparr>readable = True, events = [OnData (StringChunk [0x61, 0x62, 0x63]), OnEnd]\<rparr>
       (Some NaN)
     = Some (Resolved [])
   \<and> \<not> int_le_number (int (length ([] :: nat list))) NaN
   \<and> readTextStream toString_utf8
       \<lparr>readable = True,
        events = [OnData (BufferChunk [CHR 0xE2, CHR 0x82, CHR 0xAC]), OnEnd]\<rparr>
       (Some (Finite 1))
     = Some (Resolved [0xFFFD])
   \<and> joinChunks toString_utf8 [BufferChunk [CHR 0xE2, CHR 0x82, CHR 0xAC]] = [0x20AC]
   \<and> take 1 [0x20AC :: nat] \<noteq> [0xFFFD]"
  by (simp add: readTextStream_def onData_def settle_def joinChunks_def chunkText_def
      math_trunc_def toString_utf8_euro toString_utf8_cut)

text \<open>
  Claim C10, amended: for every defined \<open>maxLength\<close> that is a number not below zero,
  so neither negative nor NaN, whatever text \<open>readTextStream\<close> resolves with is at most
  \<open>maxLength\<close> long. On a readable stream that delivers its chunks and then ends, the
  text is the concatenation of the chunks truncated at the boundary of \<open>maxLength\<close>
  units, rounded down, where a string chunk counts by its characters and a \<open>Buffer\<close>
  chunk by its bytes and is decoded after the cut; the chunks behind the boundary are
  discarded, and no chunk is cut when the bound is infinite. On a stream of string
  chunks this is the first \<open>maxLength\<close> characters of their concatenation. The decoder
  gives no more characters than it gets bytes, and no text for no bytes.
\<close>

theorem readTextStream_bounded:
  assumes "\<forall>b. length (decode b) \<le> length b" and "decode [] = []"
    and "int_le_number 0 m"
  shows "(\<forall>s. readTextStream decode inIO (Some m) = Some (Resolved s) \<longrightarrow>
            int_le_number (int (length s)) m)
    \<and> (\<forall>r. m = Finite r \<longrightarrow>
          readTextStream decode \<lparr>readable = True, events = map OnData cs @ [OnEnd]\<rparr> (Some m)
            = Some (Resolved (joinChunks decode (chunksTruncatedAt (nat \<lfloor>r\<rfloor>) cs))))
    \<and> (m = PosInfinity \<longrightarrow>
          readTextStream decode \<lparr>readable = True, events = map OnData cs @ [OnEnd]\<rparr> (Some m)
            = Some (Resolved (joinChunks decode cs)))
    \<and> (\<forall>r. m = Finite r \<longrightarrow>
          readTextStream decode
            \<lparr>readable = True, events = map OnData (map StringChunk ss) @ [OnEnd]\<rparr> (Some m)
            = Some (Resolved (take (nat \<lfloor>r\<rfloor>) (concat ss))))"
proof (intro conjI allI impI)
  fix s
  assume "readTextStream decode inIO (Some m) = Some (Resolved s)"
  with assms(1,3) show "int_le_number (int (length s)) m"
    by (rule readTextStream_length)
next
  fix r
  assume m: "m = Finite r"
  with assms(3) have r: "0 \<le> r" by simp
  from readTextStream_truncated[where decode = decode, OF assms(2) r, of cs] m
  show "readTextStream decode \<lparr>readable = True, events = map OnData cs @ [OnEnd]\<rparr> (Some m)
            = Some (Resolved (joinChunks decode (chunksTruncatedAt (nat \<lfloor>r\<rfloor>) cs)))"
    by simp
next
  assume "m = PosInfinity"
  then show "readTextStream decode \<lparr>readable = True, events = map OnData cs @ [OnEnd]\<rparr>
               (Some m)
            = Some (Resolved (joinChunks decode cs))"
    by (simp add: readTextStream_unbounded)
next
  fix r
  assume m: "m = Finite r"
  with assms(3) have r: "0 \<le> r" by simp
  from readTextStream_truncated[where decode = decode, OF assms(2) r, of "map StringChunk ss"] m
  show "readTextStream decode
            \<lparr>readable = True, events = map OnData (map StringChunk ss) @ [OnEnd]\<rparr> (Some m)
            = Some (Resolved (take (nat \<lfloor>r\<rfloor>) (concat ss)))"
    by (simp add: strings_truncated)
qed

theorem readTextStream_bounded_witness:
  "(\<forall>b. length (toString_utf8 b) \<le> length b) \<and> toString_utf8 [] = []
   \<and> int_le_number 0 (Finite (7 / 2))
   \<and> readTextStream toString_utf8
        \<lparr>readable = True,
         events = map OnData [StringChunk [0x61, 0x62],
                              BufferChunk [CHR 0xE2, CHR 0x82, CHR 0xAC]] @ [OnEnd]\<rparr>
        (Some (Finite (7 / 2)))
      = Some (Resolved [0x61, 0x62, 0xFFFD])
   \<and> int_le_number (int (length [0x61, 0x62, 0xFFFD :: nat])) (Finite (7 / 2))
   \<and> joinChunks toString_utf8
        (chunksTruncatedAt (nat \<lfloor>7 / 2 :: real\<rfloor>)
           [StringChunk [0x61, 0x62], BufferChunk [CHR 0xE2, CHR 0x82, CHR 0xAC]])
      = [0x61, 0x62, 0xFFFD]
   \<and> readTextStream toString_utf8
        \<lparr>readable = True,
         events = map OnData (map StringChunk [[0x61, 0x62], [0x63, 0x64]]) @ [OnEnd]\<rparr>
        (Some (Finite (7 / 2)))
      = Some (Resolved (take (nat \<lfloor>7 / 2 :: real\<rfloor>) (concat [[0x61, 0x62], [0x63, 0x64]])))"
proof -
  let ?cs = "[StringChunk [0x61, 0x62], BufferChunk [CHR 0xE2, CHR 0x82, CHR 0xAC]]
               :: nat chunk list"
  let ?io = "\<lparr>readable = True, events = map OnData ?cs @ [OnEnd]\<rparr>"
  have d: "\<forall>b. length (toString_utf8 b) \<le> length b"
    by (simp add: toString_utf8_length)
  have e: "toString_utf8 [] = []" by (rule toString_utf8_empty)
  have m: "int_le_number 0 (Finite (7 / 2))" by simp
  have f: "nat \<lfloor>7 / 2 :: real\<rfloor> = 3" by simp
  have t: "joinChunks toString_utf8 (chunksTruncatedAt 3 ?cs) = [0x61, 0x62, 0xFFFD]"
    by (simp add: joinChunks_def chunkText_def toString_utf8_cut)
  from readTextStream_bounded[where decode = toString_utf8, OF d e m,
      of ?io ?cs "[[0x61, 0x62], [0x63, 0x64]]"]
  have r: "readTextStream toString_utf8 ?io (Some (Finite (7 / 2)))
             = Some (Resolved [0x61, 0x62, 0xFFFD])"
    "readTextStream toString_utf8
        \<lparr>readable = True,
         events = map OnData (map StringChunk [[0x61, 0x62], [0x63, 0x64]]) @ [OnEnd]\<rparr>
        (Some (Finite (7 / 2)))
      = Some (Resolved (take (nat \<lfloor>7 / 2 :: real\<rfloor>) (concat [[0x61, 0x62], [0x63, 0x64]])))"
    by (simp_all only: f t)
  from d e m r t f show ?thesis by simp
qed

section \<open>Properties of the download command\<close>

subsection \<open>The password storage key\<close>

text \<open>
  Claim C8 says that the text of \<open>formatUserHubAddress\<close> contains the host name, so
  that the storage keys of two hubs that differ only in the host name differ. The
  template literal of line 45 never reads the host name: for the user \<open>alice\<close> on port
  7340 the text holds the brace expression as plain characters, and the hubs
  \<open>hub1.example.com\<close> and \<open>hub2.example.com\<close> get the same storage key.
\<close>

theorem formatUserHubAddress_drops_hostname:
  "formatUserHubAddress
     \<lparr>protocol = Some ''https'', hostname = ''hub1.example.com'', port = Some 7340\<rparr> ''alice''
     = ''https://alice'' @ ''@'' @ ''{$hubAddress.hostname}:7340''
   \<and> passwordStorageKeyOf
       \<lparr>protocol = Some ''https'', hostname = ''hub1.example.com'', port = Some 7340\<rparr> ''alice''
     = passwordStorageKeyOf
         \<lparr>protocol = Some ''https'', hostname = ''hub2.example.com'', port = Some 7340\<rparr> ''alice''"
  by (simp add: formatUserHubAddress_def passwordStorageKeyOf_def toString_nat.simps)

subsection \<open>Truthiness and the branches of the configuration\<close>

lemma nonEmpty_Some: "nonEmpty v = Some s \<longleftrightarrow> v = Some s \<and> s \<noteq> []"
  by (auto simp: nonEmpty_def truthy_def split: option.splits)

lemma nonEmpty_None: "nonEmpty v = None \<longleftrightarrow> \<not> truthy v"
  by (cases v) (auto simp: nonEmpty_def truthy_def)

lemma truthy_Some: "truthy v \<longleftrightarrow> (\<exists>s. v = Some s \<and> s \<noteq> [])"
  by (cases v) (auto simp: truthy_def)

lemma storageKey_nonEmpty:
  "nonEmpty (Some (passwordStorageKeyOf obj u)) = Some (passwordStorageKeyOf obj u)"
  by (simp add: nonEmpty_def truthy_def passwordStorageKeyOf_def)

lemma configure_cert:
  assumes "configureHubClient R N v secrets = Inr (su, secrets', effs)"
    and "hubUserCertFilePath v = Some cert" and "cert \<noteq> []"
  shows "hubClientOptions su =
     \<lparr>cafile = map_option R (nonEmpty (hubCAFilePath v)), hubuser = nonEmpty (hubUserName v),
      hubpwfile = None, hubcert = Some (R cert),
      hubkey = Some (R (defaultCertKeyFilePath cert (hubUserCertKeyFilePath v))),
      hubpasswd = None\<rparr> \<and> secrets' = secrets \<and> effs = []"
proof -
  have ne: "nonEmpty (hubUserCertFilePath v) = Some cert"
    using assms(2,3) by (simp add: nonEmpty_Some)
  from assms(1) show ?thesis
    unfolding configureHubClient_def Let_def ne
    by (auto split: sum.splits option.splits)
qed

lemma configure_pwfile:
  assumes "configureHubClient R N v secrets = Inr (su, secrets', effs)"
    and "\<not> truthy (hubUserCertFilePath v)"
    and "hubUserPasswordFilePath v = Some pw" and "pw \<noteq> []"
  shows "hubClientOptions su =
     \<lparr>cafile = map_option R (nonEmpty (hubCAFilePath v)), hubuser = nonEmpty (hubUserName v),
      hubpwfile = Some (R pw), hubcert = None, hubkey = None, hubpasswd = None\<rparr>"
proof -
  have ne: "nonEmpty (hubUserCertFilePath v) = None"
    using assms(2) by (simp add: nonEmpty_None)
  have np: "nonEmpty (hubUserPasswordFilePath v) = Some pw"
    using assms(3,4) by (simp add: nonEmpty_Some)
  from assms(1) show ?thesis
    unfolding configureHubClient_def Let_def ne np
    by (auto split: sum.splits option.splits)
qed

lemma configure_interactive:
  assumes "configureHubClient R N v secrets = Inr (su, secrets', effs)"
    and "\<not> truthy (hubUserCertFilePath v)" and "\<not> truthy (hubUserPasswordFilePath v)"
    and "hubAddressString v = Some a" and "a \<noteq> []" and "hubUserName v = Some u" and "u \<noteq> []"
  shows "\<exists>obj. N a = Inr obj \<and> hubAddressObject su = Some obj \<and> hubClientOptions su =
     \<lparr>cafile = map_option R (nonEmpty (hubCAFilePath v)), hubuser = Some u,
      hubpwfile = None, hubcert = None, hubkey = None,
      hubpasswd = Some \<lparr>passwordStorageKeyString = passwordStorageKeyOf obj u,
                        username = u, address = a\<rparr>\<rparr>
     \<and> passwordStorageKey su = Some (passwordStorageKeyOf obj u)
     \<and> secrets' = secrets \<and> effs = []"
proof -
  have ne: "nonEmpty (hubUserCertFilePath v) = None"
    "nonEmpty (hubUserPasswordFilePath v) = None"
    using assms(2,3) by (simp_all add: nonEmpty_None)
  have na: "nonEmpty (hubAddressString v) = Some a" "nonEmpty (hubUserName v) = Some u"
    using assms(4-7) by (simp_all add: nonEmpty_Some)
  from assms(1) show ?thesis
    unfolding configureHubClient_def Let_def ne na
    by (auto simp: storageKey_nonEmpty split: sum.splits)
qed

lemma configure_none:
  assumes "configureHubClient R N v secrets = Inr (su, secrets', effs)"
    and "\<not> truthy (hubUserCertFilePath v)" and "\<not> truthy (hubUserPasswordFilePath v)"
    and "\<not> (truthy (hubAddressString v) \<and> truthy (hubUserName v))"
  shows "hubClientOptions su =
     \<lparr>cafile = map_option R (nonEmpty (hubCAFilePath v)), hubuser = nonEmpty (hubUserName v),
      hubpwfile = None, hubcert = None, hubkey = None, hubpasswd = None\<rparr>
     \<and> secrets' = secrets \<and> effs = []"
proof -
  have ne: "nonEmpty (hubUserCertFilePath v) = None"
    "nonEmpty (hubUserPasswordFilePath v) = None"
    using assms(2,3) by (simp_all add: nonEmpty_None)
  have "nonEmpty (hubAddressString v) = None \<or> nonEmpty (hubUserName v) = None"
    using assms(4) by (simp add: nonEmpty_None)
  with assms(1) show ?thesis
    unfolding configureHubClient_def Let_def ne
    by (auto split: sum.splits option.splits)
qed

lemma configure_no_cert:
  assumes c: "configureHubClient R N v secrets = Inr (su, secrets', effs)"
    and n: "\<not> truthy (hubUserCertFilePath v)"
  shows "hubcert (hubClientOptions su) = None \<and> hubkey (hubClientOptions su) = None"
proof (cases "truthy (hubUserPasswordFilePath v)")
  case True
  then obtain pw where "hubUserPasswordFilePath v = Some pw" "pw \<noteq> []"
    by (auto simp: truthy_Some)
  from configure_pwfile[OF c n this] show ?thesis by simp
next
  case nopw: False
  show ?thesis
  proof (cases "truthy (hubAddressString v) \<and> truthy (hubUserName v)")
    case True
    then obtain a u where
      "hubAddressString v = Some a" "a \<noteq> []" "hubUserName v = Some u" "u \<noteq> []"
      by (auto simp: truthy_Some)
    from configure_interactive[OF c n nopw this] show ?thesis by auto
  next
    case False
    from configure_none[OF c n nopw False] show ?thesis by simp
  qed
qed

subsection \<open>The key file path\<close>

lemma endsWith_append: "endsWith (stem @ suf) suf"
  by (simp add: endsWith_def)

lemma endsWith_last: "endsWith s suf \<Longrightarrow> suf \<noteq> [] \<Longrightarrow> s \<noteq> [] \<and> last s = last suf"
  unfolding endsWith_def
  by (metis append_take_drop_id last_appendR length_0_conv le_zero_eq)

lemma not_cert_when_pem: "\<not> endsWith (stem @ ''.cert.pem'') ''.cert''"
proof
  assume "endsWith (stem @ ''.cert.pem'') ''.cert''"
  from endsWith_last[OF this] show False by simp
qed

lemma key_of_cert: "defaultCertKeyFilePath (stem @ ''.cert'') None = stem @ ''.key''"
  by (simp add: defaultCertKeyFilePath_def endsWith_append[of stem "''.cert''", simplified])

lemma key_of_cert_pem:
  "defaultCertKeyFilePath (stem @ ''.cert.pem'') None = stem @ ''.key.pem''"
  using not_cert_when_pem[of stem] endsWith_append[of stem "''.cert.pem''"]
  by (simp add: defaultCertKeyFilePath_def)

lemma key_of_other:
  "\<not> endsWith p ''.cert'' \<Longrightarrow> \<not> endsWith p ''.cert.pem'' \<Longrightarrow>
   defaultCertKeyFilePath p None = p @ ''.key''"
  by (simp add: defaultCertKeyFilePath_def)

lemma exec_cert_only:
  "userCertFilePath x = Some c \<Longrightarrow> c \<noteq> [] \<Longrightarrow> userKeyFilePath x = None \<Longrightarrow>
   exec_hubkey (exec_hubOptions x) = Some (CSHubUserKey c c)"
  by (simp add: exec_hubOptions_def truthy_def)

lemma exec_key_only:
  "userKeyFilePath x = Some k \<Longrightarrow> k \<noteq> [] \<Longrightarrow> userCertFilePath x = None \<Longrightarrow>
   exec_hubkey (exec_hubOptions x) = Some (CSHubUserKey k k)"
  by (simp add: exec_hubOptions_def truthy_def)

text \<open>
  Claim C5 says that the key path is derived from the certificate path by the suffix
  rule and, symmetrically, that when only one of the two paths is given the other is
  derived from it. With a key path \<open>alice.key\<close> and no certificate path, the download
  command derives no certificate path: the branch of line 175 is not taken, and the
  options carry neither a certificate nor a key.
\<close>

theorem key_without_certificate_is_dropped:
  "configureHubClient (\<lambda>p. p) (\<lambda>s. Inr \<lparr>protocol = None, hostname = s, port = None\<rparr>)
     \<lparr>hubAddressString = Some ''localhost:7340'', hubCAFilePath = None, hubUserName = None,
      hubUserPasswordFilePath = None, hubUserCertFilePath = None,
      hubUserCertKeyFilePath = Some ''alice.key''\<rparr> Map.empty
   = Inr (\<lparr>hubAddressObject =
             Some \<lparr>protocol = None, hostname = ''localhost:7340'', port = None\<rparr>,
           hubClientOptions = \<lparr>cafile = None, hubuser = None, hubpwfile = None,
                                hubcert = None, hubkey = None, hubpasswd = None\<rparr>,
           passwordStorageKey = None\<rparr>, Map.empty, [])"
  by (simp add: configureHubClient_def truthy_def nonEmpty_def)

text \<open>
  Claim C5, amended: in the download command, for every certificate path that is not
  empty and comes with no key path, the key path is the certificate path with \<open>.cert\<close>
  replaced by \<open>.key\<close>, or with \<open>.cert.pem\<close> replaced by \<open>.key.pem\<close>, or else with
  \<open>.key\<close> appended (each then resolved against the workspace folder). The derivation
  goes one way only: without a certificate path no certificate and no key is set. The
  hub client front end derives nothing: given one of the two paths only, it passes that
  path as both the certificate and the key.
\<close>

theorem key_path_derivation:
  assumes c: "configureHubClient R N v secrets = Inr (su, secrets', effs)"
  shows "(\<forall>cert. hubUserCertFilePath v = Some cert \<and> cert \<noteq> []
                 \<and> hubUserCertKeyFilePath v = None \<longrightarrow>
            hubcert (hubClientOptions su) = Some (R cert)
            \<and> (\<forall>stem. cert = stem @ ''.cert'' \<longrightarrow>
                  hubkey (hubClientOptions su) = Some (R (stem @ ''.key'')))
            \<and> (\<forall>stem. cert = stem @ ''.cert.pem'' \<longrightarrow>
                  hubkey (hubClientOptions su) = Some (R (stem @ ''.key.pem'')))
            \<and> (\<not> endsWith cert ''.cert'' \<and> \<not> endsWith cert ''.cert.pem'' \<longrightarrow>
                  hubkey (hubClientOptions su) = Some (R (cert @ ''.key''))))
     \<and> (\<not> truthy (hubUserCertFilePath v) \<longrightarrow>
            hubcert (hubClientOptions su) = None \<and> hubkey (hubClientOptions su) = None)
     \<and> (\<forall>c. userCertFilePath x = Some c \<and> c \<noteq> [] \<and> userKeyFilePath x = None \<longrightarrow>
            exec_hubkey (exec_hubOptions x) = Some (CSHubUserKey c c))
     \<and> (\<forall>k. userKeyFilePath x = Some k \<and> k \<noteq> [] \<and> userCertFilePath x = None \<longrightarrow>
            exec_hubkey (exec_hubOptions x) = Some (CSHubUserKey k k))"
proof (intro conjI allI impI)
  fix cert
  assume h: "hubUserCertFilePath v = Some cert \<and> cert \<noteq> [] \<and> hubUserCertKeyFilePath v = None"
  then have o: "hubClientOptions su =
     \<lparr>cafile = map_option R (nonEmpty (hubCAFilePath v)), hubuser = nonEmpty (hubUserName v),
      hubpwfile = None, hubcert = Some (R cert),
      hubkey = Some (R (defaultCertKeyFilePath cert None)), hubpasswd = None\<rparr>"
    using configure_cert[OF c, of cert] by simp
  show "hubcert (hubClientOptions su) = Some (R cert)" by (simp add: o)
  show "hubkey (hubClientOptions su) = Some (R (stem @ ''.key''))"
    if "cert = stem @ ''.cert''" for stem
    using that by (simp add: o key_of_cert)
  show "hubkey (hubClientOptions su) = Some (R (stem @ ''.key.pem''))"
    if "cert = stem @ ''.cert.pem''" for stem
    using that by (simp add: o key_of_cert_pem)
  show "hubkey (hubClientOptions su) = Some (R (cert @ ''.key''))"
    if "\<not> endsWith cert ''.cert'' \<and> \<not> endsWith cert ''.cert.pem''"
    using that by (simp add: o key_of_other)
next
  assume "\<not> truthy (hubUserCertFilePath v)"
  from configure_no_cert[OF c this]
  show "hubcert (hubClientOptions su) = None" "hubkey (hubClientOptions su) = None"
    by simp_all
next
  fix c assume "userCertFilePath x = Some c \<and> c \<noteq> [] \<and> userKeyFilePath x = None"
  then show "exec_hubkey (exec_hubOptions x) = Some (CSHubUserKey c c)"
    by (simp add: exec_cert_only)
next
  fix k assume "userKeyFilePath x = Some k \<and> k \<noteq> [] \<and> userCertFilePath x = None"
  then show "exec_hubkey (exec_hubOptions x) = Some (CSHubUserKey k k)"
    by (simp add: exec_key_only)
qed

theorem key_path_derivation_witness:
  "(case configureHubClient (\<lambda>p. ''/ws/'' @ p)
           (\<lambda>s. Inr \<lparr>protocol = None, hostname = s, port = None\<rparr>)
           \<lparr>hubAddressString = Some ''localhost:7340'', hubCAFilePath = None,
            hubUserName = None, hubUserPasswordFilePath = None,
            hubUserCertFilePath = Some ''alice.cert'', hubUserCertKeyFilePath = None\<rparr>
           Map.empty of
      Inl e \<Rightarrow> False
    | Inr (su, secrets', effs) \<Rightarrow>
        hubcert (hubClientOptions su) = Some ''/ws/alice.cert''
        \<and> hubkey (hubClientOptions su) = Some ''/ws/alice.key'')
   \<and> (case configureHubClient (\<lambda>p. ''/ws/'' @ p)
           (\<lambda>s. Inr \<lparr>protocol = None, hostname = s, port = None\<rparr>)
           \<lparr>hubAddressString = Some ''localhost:7340'', hubCAFilePath = None,
            hubUserName = None, hubUserPasswordFilePath = None,
            hubUserCertFilePath = Some ''alice.cert.pem'', hubUserCertKeyFilePath = None\<rparr>
           Map.empty of
      Inl e \<Rightarrow> False
    | Inr (su, secrets', effs) \<Rightarrow>
        hubkey (hubClientOptions su) = Some ''/ws/alice.key.pem'')
   \<and> (case configureHubClient (\<lambda>p. ''/ws/'' @ p)
           (\<lambda>s. Inr \<lparr>protocol = None, hostname = s, port = None\<rparr>)
           \<lparr>hubAddressString = Some ''localhost:7340'', hubCAFilePath = None,
            hubUserName = None, hubUserPasswordFilePath = None,
            hubUserCertFilePath = Some ''alice.pem'', hubUserCertKeyFilePath = None\<rparr>
           Map.empty of
      Inl e \<Rightarrow> False
    | Inr (su, secrets', effs) \<Rightarrow>
        hubkey (hubClientOptions su) = Some ''/ws/alice.pem.key'')
   \<and> (case configureHubClient (\<lambda>p. ''/ws/'' @ p)
           (\<lambda>s. Inr \<lparr>protocol = None, hostname = s, port = None\<rparr>)
           \<lparr>hubAddressString = Some ''localhost:7340'', hubCAFilePath = None,
            hubUserName = None, hubUserPasswordFilePath = None,
            hubUserCertFilePath = None, hubUserCertKeyFilePath = Some ''alice.key''\<rparr>
           Map.empty of
      Inl e \<Rightarrow> False
    | Inr (su, secrets', effs) \<Rightarrow>
        hubcert (hubClientOptions su) = None \<and> hubkey (hubClientOptions su) = None)
   \<and> exec_hubkey (exec_hubOptions
        \<lparr>errorMessage = None, hubAddress = None, targetUrlString = None,
         cacertFilePath = None, userName = None, userPasswordFilePath = None,
         userCertFilePath = Some ''alice.cert'', userKeyFilePath = None\<rparr>)
      = Some (CSHubUserKey ''alice.cert'' ''alice.cert'')
   \<and> exec_hubkey (exec_hubOptions
        \<lparr>errorMessage = None, hubAddress = None, targetUrlString = None,
         cacertFilePath = None, userName = None, userPasswordFilePath = None,
         userCertFilePath = None, userKeyFilePath = Some ''alice.key''\<rparr>)
      = Some (CSHubUserKey ''alice.key'' ''alice.key'')"
proof -
  let ?R = "\<lambda>p. ''/ws/'' @ p"
  let ?N = "\<lambda>s. Inr \<lparr>protocol = None, hostname = s, port = None\<rparr> :: js_error + CSHubAddress"
  let ?v = "\<lambda>cert key. \<lparr>hubAddressString = Some ''localhost:7340'', hubCAFilePath = None,
            hubUserName = None, hubUserPasswordFilePath = None,
            hubUserCertFilePath = cert, hubUserCertKeyFilePath = key\<rparr>"
  let ?xc = "\<lparr>errorMessage = None, hubAddress = None, targetUrlString = None,
         cacertFilePath = None, userName = None, userPasswordFilePath = None,
         userCertFilePath = Some ''alice.cert'', userKeyFilePath = None\<rparr>"
  let ?xk = "\<lparr>errorMessage = None, hubAddress = None, targetUrlString = None,
         cacertFilePath = None, userName = None, userPasswordFilePath = None,
         userCertFilePath = None, userKeyFilePath = Some ''alice.key''\<rparr>"
  obtain s1 where r1: "configureHubClient ?R ?N (?v (Some ''alice.cert'') None) Map.empty
      = Inr (s1, Map.empty, [])"
    by (simp add: configureHubClient_def nonEmpty_def truthy_def)
  obtain s2 where r2: "configureHubClient ?R ?N (?v (Some ''alice.cert.pem'') None) Map.empty
      = Inr (s2, Map.empty, [])"
    by (simp add: configureHubClient_def nonEmpty_def truthy_def)
  obtain s3 where r3: "configureHubClient ?R ?N (?v (Some ''alice.pem'') None) Map.empty
      = Inr (s3, Map.empty, [])"
    by (simp add: configureHubClient_def nonEmpty_def truthy_def)
  obtain s4 where r4: "configureHubClient ?R ?N (?v None (Some ''alice.key'')) Map.empty
      = Inr (s4, Map.empty, [])"
    by (simp add: configureHubClient_def nonEmpty_def truthy_def)
  have e3: "\<not> endsWith ''alice.pem'' ''.cert'' \<and> \<not> endsWith ''alice.pem'' ''.cert.pem''"
    by (simp add: endsWith_def)
  from key_path_derivation[OF r1, of ?xc]
  have k1: "hubcert (hubClientOptions s1) = Some ''/ws/alice.cert''
            \<and> hubkey (hubClientOptions s1) = Some ''/ws/alice.key''
            \<and> exec_hubkey (exec_hubOptions ?xc) = Some (CSHubUserKey ''alice.cert'' ''alice.cert'')"
    by simp
  from key_path_derivation[OF r2, of ?xk]
  have k2: "hubkey (hubClientOptions s2) = Some ''/ws/alice.key.pem''
            \<and> exec_hubkey (exec_hubOptions ?xk) = Some (CSHubUserKey ''alice.key'' ''alice.key'')"
    by simp
  from key_path_derivation[OF r3, of ?xc] e3
  have k3: "hubkey (hubClientOptions s3) = Some ''/ws/alice.pem.key''"
    by simp
  from key_path_derivation[OF r4, of ?xc]
  have k4: "hubcert (hubClientOptions s4) = None \<and> hubkey (hubClientOptions s4) = None"
    by (simp add: truthy_def)
  from k1 k2 k3 k4 show ?thesis
    by (simp only: r1 r2 r3 r4 sum.case prod.case simp_thms)
qed

subsection \<open>Precedence of the credential schemes\<close>

text \<open>
  Claim C1 says that for every session configuration exactly one credential scheme is
  honored. With the hub setting given as a plain address, \<open>localhost:7340\<close>, there is
  no user name, no certificate and no password file: no input box is shown, and the
  options carry no scheme at all.
\<close>

theorem address_only_has_no_scheme:
  "readHubSettings (Some (HubAddressString ''localhost:7340'')) None None
     = (\<lparr>hubAddressString = Some ''localhost:7340'', hubCAFilePath = None, hubUserName = None,
         hubUserPasswordFilePath = None, hubUserCertFilePath = None,
         hubUserCertKeyFilePath = None\<rparr>, [])
   \<and> configureHubClient (\<lambda>p. p) (\<lambda>s. Inr \<lparr>protocol = None, hostname = s, port = None\<rparr>)
       \<lparr>hubAddressString = Some ''localhost:7340'', hubCAFilePath = None, hubUserName = None,
        hubUserPasswordFilePath = None, hubUserCertFilePath = None,
        hubUserCertKeyFilePath = None\<rparr> Map.empty
     = Inr (\<lparr>hubAddressObject =
               Some \<lparr>protocol = None, hostname = ''localhost:7340'', port = None\<rparr>,
             hubClientOptions = \<lparr>cafile = None, hubuser = None, hubpwfile = None,
                                  hubcert = None, hubkey = None, hubpasswd = None\<rparr>,
             passwordStorageKey = None\<rparr>, Map.empty, [])
   \<and> honoredSchemes \<lparr>cafile = None, hubuser = None, hubpwfile = None, hubcert = None,
                      hubkey = None, hubpasswd = None\<rparr> = 0"
  by (simp add: readHubSettings_def configureHubClient_def honoredSchemes_def truthy_def
      nonEmpty_def)

text \<open>
  Claim C1, amended: for every configuration at most one credential scheme is honored,
  and exactly one when a certificate path, a password file path, or both a hub address
  and a user name are present. The scheme is chosen by the precedence certificate,
  password file, interactive password: with a certificate path the options carry the
  certificate pair only, and neither the secret storage nor an input box is touched;
  with a password file path and no certificate path they carry the password file only;
  the interactive password function is installed exactly when neither path is
  configured and a hub address and a user name are present.
\<close>

theorem credential_scheme_precedence:
  assumes c: "configureHubClient R N v secrets = Inr (su, secrets', effs)"
  shows "honoredSchemes (hubClientOptions su) \<le> 1
    \<and> (honoredSchemes (hubClientOptions su) = 1 \<longleftrightarrow>
         truthy (hubUserCertFilePath v) \<or> truthy (hubUserPasswordFilePath v)
         \<or> (truthy (hubAddressString v) \<and> truthy (hubUserName v)))
    \<and> (truthy (hubUserCertFilePath v) \<longrightarrow>
         hubcert (hubClientOptions su) \<noteq> None \<and> hubkey (hubClientOptions su) \<noteq> None
         \<and> hubpwfile (hubClientOptions su) = None \<and> hubpasswd (hubClientOptions su) = None
         \<and> secrets' = secrets \<and> effs = [])
    \<and> (\<not> truthy (hubUserCertFilePath v) \<and> truthy (hubUserPasswordFilePath v) \<longrightarrow>
         hubpwfile (hubClientOptions su) \<noteq> None \<and> hubcert (hubClientOptions su) = None
         \<and> hubkey (hubClientOptions su) = None \<and> hubpasswd (hubClientOptions su) = None)
    \<and> (hubpasswd (hubClientOptions su) \<noteq> None \<longleftrightarrow>
         \<not> truthy (hubUserCertFilePath v) \<and> \<not> truthy (hubUserPasswordFilePath v)
         \<and> truthy (hubAddressString v) \<and> truthy (hubUserName v))"
proof (cases "truthy (hubUserCertFilePath v)")
  case True
  then obtain cert where "hubUserCertFilePath v = Some cert" "cert \<noteq> []"
    by (auto simp: truthy_Some)
  from configure_cert[OF c this] True show ?thesis
    by (simp add: honoredSchemes_def)
next
  case nocert: False
  show ?thesis
  proof (cases "truthy (hubUserPasswordFilePath v)")
    case True
    then obtain pw where "hubUserPasswordFilePath v = Some pw" "pw \<noteq> []"
      by (auto simp: truthy_Some)
    from configure_pwfile[OF c nocert this] nocert True show ?thesis
      by (simp add: honoredSchemes_def)
  next
    case nopw: False
    show ?thesis
    proof (cases "truthy (hubAddressString v) \<and> truthy (hubUserName v)")
      case True
      then obtain a u where
        "hubAddressString v = Some a" "a \<noteq> []" "hubUserName v = Some u" "u \<noteq> []"
        by (auto simp: truthy_Some)
      from configure_interactive[OF c nocert nopw this] nocert nopw True show ?thesis
        by (auto simp: honoredSchemes_def)
    next
      case False
      from configure_none[OF c nocert nopw False] nocert nopw False show ?thesis
        by (simp add: honoredSchemes_def)
    qed
  qed
qed

theorem credential_scheme_precedence_witness:
  "truthy (Some ''alice.cert'') \<and> truthy (Some ''pw.txt'')
   \<and> (case configureHubClient (\<lambda>p. p)
           (\<lambda>s. Inr \<lparr>protocol = None, hostname = s, port = None\<rparr>)
           \<lparr>hubAddressString = Some ''localhost:7340'', hubCAFilePath = None,
            hubUserName = Some ''alice'', hubUserPasswordFilePath = Some ''pw.txt'',
            hubUserCertFilePath = Some ''alice.cert'', hubUserCertKeyFilePath = None\<rparr>
           Map.empty of
        Inl e \<Rightarrow> False
      | Inr (su, secrets', effs) \<Rightarrow>
          honoredSchemes (hubClientOptions su) = 1
          \<and> hubcert (hubClientOptions su) \<noteq> None
          \<and> hubpwfile (hubClientOptions su) = None
          \<and> hubpasswd (hubClientOptions su) = None \<and> effs = [])
   \<and> (case configureHubClient (\<lambda>p. p)
           (\<lambda>s. Inr \<lparr>protocol = None, hostname = s, port = None\<rparr>)
           \<lparr>hubAddressString = Some ''localhost:7340'', hubCAFilePath = None,
            hubUserName = Some ''alice'', hubUserPasswordFilePath = Some ''pw.txt'',
            hubUserCertFilePath = None, hubUserCertKeyFilePath = None\<rparr>
           Map.empty of
        Inl e \<Rightarrow> False
      | Inr (su, secrets', effs) \<Rightarrow>
          honoredSchemes (hubClientOptions su) = 1
          \<and> hubpwfile (hubClientOptions su) \<noteq> None
          \<and> hubpasswd (hubClientOptions su) = None)
   \<and> (case configureHubClient (\<lambda>p. p)
           (\<lambda>s. Inr \<lparr>protocol = None, hostname = s, port = None\<rparr>)
           \<lparr>hubAddressString = Some ''localhost:7340'', hubCAFilePath = None,
            hubUserName = Some ''alice'', hubUserPasswordFilePath = None,
            hubUserCertFilePath = None, hubUserCertKeyFilePath = None\<rparr>
           Map.empty of
        Inl e \<Rightarrow> False
      | Inr (su, secrets', effs) \<Rightarrow>
          honoredSchemes (hubClientOptions su) = 1
          \<and> hubpasswd (hubClientOptions su) \<noteq> None)"
proof -
  let ?N = "\<lambda>s. Inr \<lparr>protocol = None, hostname = s, port = None\<rparr> :: js_error + CSHubAddress"
  let ?v = "\<lambda>pw cert. \<lparr>hubAddressString = Some ''localhost:7340'', hubCAFilePath = None,
            hubUserName = Some ''alice'', hubUserPasswordFilePath = pw,
            hubUserCertFilePath = cert, hubUserCertKeyFilePath = None\<rparr>"
  obtain s1 where r1:
    "configureHubClient (\<lambda>p. p) ?N (?v (Some ''pw.txt'') (Some ''alice.cert'')) Map.empty
       = Inr (s1, Map.empty, [])"
    by (simp add: configureHubClient_def nonEmpty_def truthy_def)
  obtain s2 e2 where r2:
    "configureHubClient (\<lambda>p. p) ?N (?v (Some ''pw.txt'') None) Map.empty
       = Inr (s2, Map.empty, e2)"
    by (simp add: configureHubClient_def nonEmpty_def truthy_def passwordStorageKeyOf_def)
  obtain s3 where r3:
    "configureHubClient (\<lambda>p. p) ?N (?v None None) Map.empty = Inr (s3, Map.empty, [])"
    by (simp add: configureHubClient_def nonEmpty_def truthy_def passwordStorageKeyOf_def)
  from credential_scheme_precedence[OF r1]
  have k1: "honoredSchemes (hubClientOptions s1) = 1
          \<and> hubcert (hubClientOptions s1) \<noteq> None
          \<and> hubpwfile (hubClientOptions s1) = None
          \<and> hubpasswd (hubClientOptions s1) = None"
    by (simp add: truthy_def)
  from credential_scheme_precedence[OF r2]
  have k2: "honoredSchemes (hubClientOptions s2) = 1
          \<and> hubpwfile (hubClientOptions s2) \<noteq> None
          \<and> hubpasswd (hubClientOptions s2) = None"
    by (simp add: truthy_def)
  from credential_scheme_precedence[OF r3]
  have k3: "honoredSchemes (hubClientOptions s3) = 1
          \<and> hubpasswd (hubClientOptions s3) \<noteq> None"
    by (simp add: truthy_def)
  have t: "truthy (Some ''alice.cert'') \<and> truthy (Some ''pw.txt'')"
    by (simp add: truthy_def)
  from k1 k2 k3 t show ?thesis
    by (simp only: r1 r2 r3 sum.case prod.case simp_thms)
qed

subsection \<open>The interactive password is resolved lazily\<close>

text \<open>
  Claim C4: configuring a session with the interactive password function resolves no
  credential. Whenever the configuration installs the function, it has left the secret
  storage as it was and has had no effect of its own; the only input boxes that the
  command can show before that ask for the hub address and the user name. The secret
  storage is first read, and the password box first shown, when the installed function
  is called: its first effect is the lookup of the storage key, and without a saved
  password it then shows the password box.
\<close>

theorem interactive_password_is_lazy:
  assumes c: "configureHubClient R N v secrets = Inr (su, secrets', effs)"
    and p: "hubpasswd (hubClientOptions su) = Some f"
  shows "secrets' = secrets \<and> effs = []
     \<and> set (snd (readHubSettings hub addressInput userInput))
         \<subseteq> {ShowInputBox ''Hub Address'', ShowInputBox ''Hub User''}
     \<and> passwordStorageKey su = Some (passwordStorageKeyString f)
     \<and> take 1 (snd (snd (hubpasswd_call f inputValue secrets)))
         = [SecretGet (passwordStorageKeyString f)]
     \<and> (secrets (passwordStorageKeyString f) = None \<longrightarrow>
          ShowPasswordInputBox (passwordPrompt f)
            \<in> set (snd (snd (hubpasswd_call f inputValue secrets))))"
proof -
  have nocert: "\<not> truthy (hubUserCertFilePath v)"
  proof
    assume "truthy (hubUserCertFilePath v)"
    then obtain cert where "hubUserCertFilePath v = Some cert" "cert \<noteq> []"
      by (auto simp: truthy_Some)
    from configure_cert[OF c this] p show False by simp
  qed
  have nopw: "\<not> truthy (hubUserPasswordFilePath v)"
  proof
    assume "truthy (hubUserPasswordFilePath v)"
    then obtain pw where "hubUserPasswordFilePath v = Some pw" "pw \<noteq> []"
      by (auto simp: truthy_Some)
    from configure_pwfile[OF c nocert this] p show False by simp
  qed
  have both: "truthy (hubAddressString v) \<and> truthy (hubUserName v)"
  proof (rule ccontr)
    assume n: "\<not> (truthy (hubAddressString v) \<and> truthy (hubUserName v))"
    from configure_none[OF c nocert nopw n] p show False by simp
  qed
  then obtain a u where
    "hubAddressString v = Some a" "a \<noteq> []" "hubUserName v = Some u" "u \<noteq> []"
    by (auto simp: truthy_Some)
  from configure_interactive[OF c nocert nopw this] p
  have 1: "secrets' = secrets \<and> effs = []
            \<and> passwordStorageKey su = Some (passwordStorageKeyString f)"
    by auto
  have 2: "set (snd (readHubSettings hub addressInput userInput))
         \<subseteq> {ShowInputBox ''Hub Address'', ShowInputBox ''Hub User''}"
    by (auto simp: readHubSettings_def Let_def
        split: option.splits hub_setting.splits if_splits)
  have 3: "take 1 (snd (snd (hubpasswd_call f inputValue secrets)))
         = [SecretGet (passwordStorageKeyString f)]"
    by (auto simp: hubpasswd_call_def Let_def split: option.splits settled.splits)
  have 4: "secrets (passwordStorageKeyString f) = None \<longrightarrow>
          ShowPasswordInputBox (passwordPrompt f)
            \<in> set (snd (snd (hubpasswd_call f inputValue secrets)))"
    by (auto simp: hubpasswd_call_def Let_def split: option.splits settled.splits)
  from 1 2 3 4 show ?thesis by blast
qed

theorem interactive_password_is_lazy_witness:
  "(case configureHubClient (\<lambda>p. p)
          (\<lambda>s. Inr \<lparr>protocol = None, hostname = s, port = None\<rparr>)
          \<lparr>hubAddressString = Some ''localhost:7340'', hubCAFilePath = None,
           hubUserName = Some ''alice'', hubUserPasswordFilePath = None,
           hubUserCertFilePath = None, hubUserCertKeyFilePath = None\<rparr>
          Map.empty of
      Inl e \<Rightarrow> False
    | Inr (su, secrets', effs) \<Rightarrow>
        (case hubpasswd (hubClientOptions su) of
           None \<Rightarrow> False
         | Some f \<Rightarrow>
             secrets' = Map.empty \<and> effs = []
             \<and> take 1 (snd (snd (hubpasswd_call f (Resolved None) Map.empty)))
                 = [SecretGet (passwordStorageKeyString f)]
             \<and> ShowPasswordInputBox (passwordPrompt f)
                 \<in> set (snd (snd (hubpasswd_call f (Resolved None) Map.empty)))))"
proof -
  let ?N = "\<lambda>s. Inr \<lparr>protocol = None, hostname = s, port = None\<rparr> :: js_error + CSHubAddress"
  let ?v = "\<lparr>hubAddressString = Some ''localhost:7340'', hubCAFilePath = None,
           hubUserName = Some ''alice'', hubUserPasswordFilePath = None,
           hubUserCertFilePath = None, hubUserCertKeyFilePath = None\<rparr>"
  obtain s1 f where r: "configureHubClient (\<lambda>p. p) ?N ?v Map.empty = Inr (s1, Map.empty, [])"
    and h: "hubpasswd (hubClientOptions s1) = Some f"
    by (simp add: configureHubClient_def nonEmpty_def truthy_def passwordStorageKeyOf_def)
  from interactive_password_is_lazy[OF r h, of None None None "Resolved None"]
  show ?thesis
    by (simp add: r h)
qed

subsection \<open>The fetch of a download\<close>

lemma hubFetches_append: "hubFetches (es @ fs) = hubFetches es @ hubFetches fs"
  by (induction es rule: hubFetches.induct) simp_all

lemma hubFetches_progressTimers: "hubFetches (progressTimers i t) = []"
proof (induction i t rule: progressTimers.induct)
  case (1 i t)
  then show ?case by (simp add: progressTimers.simps[of i t])
qed

lemma hubFetches_download:
  "hubFetches (snd (downloadSarifResults basename hubClient destinationFilePath a base))
     = [case base of
          None \<Rightarrow> FetchSarifAnalysisStream (info_id a)
        | Some b \<Rightarrow> FetchSarifAnalysisDifferenceStream (info_id a) (info_id b)]"
  by (cases base)
    (simp_all add: downloadSarifResults_def Let_def hubFetches_append
      hubFetches_progressTimers split: settled.splits pipe_outcome.splits)

text \<open>
  Claim C6: every download issues exactly one fetch on the hub client, however the fetch
  or the copy to the file ends. With a baseline analysis it is the difference fetch with
  the identifiers of the analysis and of the baseline, and the one URL requested has the
  difference shape, encodes both identifiers, and differs from the URL of the fetch of
  any single analysis. Without a baseline it is the fetch of the single analysis, and
  the one URL requested is the single-analysis URL of that analysis.
\<close>

theorem download_issues_one_fetch:
  "hubFetches (snd (downloadSarifResults basename hubClient destinationFilePath a (Some b)))
     = [FetchSarifAnalysisDifferenceStream (info_id a) (info_id b)]
   \<and> hubFetches (snd (downloadSarifResults basename hubClient destinationFilePath a None))
     = [FetchSarifAnalysisStream (info_id a)]
   \<and> map requestUrl
       (hubFetches (snd (downloadSarifResults basename hubClient destinationFilePath a (Some b))))
     = [\<lparr>urlShape = AnalysisDifferenceShape, urlIdentifiers = [info_id a, info_id b]\<rparr>]
   \<and> map requestUrl
       (hubFetches (snd (downloadSarifResults basename hubClient destinationFilePath a None)))
     = [\<lparr>urlShape = SingleAnalysisShape, urlIdentifiers = [info_id a]\<rparr>]
   \<and> map requestUrl
       (hubFetches (snd (downloadSarifResults basename hubClient destinationFilePath a (Some b))))
     \<noteq> [requestUrl (FetchSarifAnalysisStream x)]"
  by (simp add: hubFetches_download)

theorem download_issues_one_fetch_witness:
  "hubFetches (snd (downloadSarifResults (\<lambda>p. p) (\<lambda>r. Resolved PipeFinish) ''out.sarif''
      \<lparr>info_id = ''12'', info_name = ''nightly''\<rparr>
      (Some \<lparr>info_id = ''7'', info_name = ''release''\<rparr>)))
     = [FetchSarifAnalysisDifferenceStream ''12'' ''7'']
   \<and> hubFetches (snd (downloadSarifResults (\<lambda>p. p) (\<lambda>r. Resolved PipeFinish) ''out.sarif''
      \<lparr>info_id = ''12'', info_name = ''nightly''\<rparr> None))
     = [FetchSarifAnalysisStream ''12'']
   \<and> map requestUrl
       (hubFetches (snd (downloadSarifResults (\<lambda>p. p) (\<lambda>r. Resolved PipeFinish) ''out.sarif''
          \<lparr>info_id = ''12'', info_name = ''nightly''\<rparr>
          (Some \<lparr>info_id = ''7'', info_name = ''release''\<rparr>))))
     = [\<lparr>urlShape = AnalysisDifferenceShape, urlIdentifiers = [''12'', ''7'']\<rparr>]"
  using download_issues_one_fetch[of "\<lambda>p. p" "\<lambda>r. Resolved PipeFinish" "''out.sarif''"
      "\<lparr>info_id = ''12'', info_name = ''nightly''\<rparr>"
      "\<lparr>info_id = ''7'', info_name = ''release''\<rparr>"]
  by simp

section \<open>Properties of the command-line front ends\<close>

lemma exec_parse_stops: "truthy (errorMessage v) \<Longrightarrow> exec_parseArgs args v = v"
  by (cases args) simp_all

lemma exec_known_dash: "exec_knownOption a \<Longrightarrow> startsWith a ''-''"
  by (auto simp: exec_knownOption_def startsWith_def)

lemma exec_parse_known:
  assumes "exec_knownOption a" and "\<not> truthy (errorMessage v)"
  shows "\<exists>v'. exec_parseArgs (a # x # r) v = exec_parseArgs r v'"
  using assms unfolding exec_knownOption_def
  by (elim disjE) (simp_all, blast+)

lemma exec_parse_flag:
  assumes "startsWith a ''-''" and "\<not> exec_knownOption a" and "\<not> truthy (errorMessage v)"
  shows "exec_parseArgs (a # r) v = v\<lparr>errorMessage := Some (unrecognizedOption a)\<rparr>"
proof -
  have "exec_parseArgs (a # r) v
          = exec_parseArgs r (v\<lparr>errorMessage := Some (unrecognizedOption a)\<rparr>)"
    using assms by (simp add: exec_knownOption_def)
  also have "\<dots> = v\<lparr>errorMessage := Some (unrecognizedOption a)\<rparr>"
    by (rule exec_parse_stops) (simp add: truthy_def unrecognizedOption_def)
  finally show ?thesis .
qed

lemma exec_parse_positional:
  assumes "\<not> startsWith a ''-''" and "\<not> truthy (errorMessage v)"
  shows "\<exists>v'. exec_parseArgs (a # r) v = exec_parseArgs r v'"
proof -
  from assms(1) exec_known_dash[of a] have "\<not> exec_knownOption a" by blast
  with assms have "exec_parseArgs (a # r) v
      = exec_parseArgs r
          (if hubAddress v = None then v\<lparr>hubAddress := Some a\<rparr>
           else if targetUrlString v = None then v\<lparr>targetUrlString := Some a\<rparr>
           else v\<lparr>errorMessage := Some (unexpectedArgument a)\<rparr>)"
    by (simp add: exec_knownOption_def)
  then show ?thesis by (rule exI)
qed

lemma strayFlag_Cons_known:
  assumes "strayFlag known (a # x # r)" and "known a"
  shows "strayFlag known r"
proof -
  from assms(1) obtain i where i: "i < length (a # x # r)"
    "startsWith ((a # x # r) ! i) ''-''" "\<not> known ((a # x # r) ! i)"
    "i = 0 \<or> \<not> known ((a # x # r) ! (i - 1))"
    by (auto simp: strayFlag_def)
  have "i \<noteq> 0"
  proof
    assume "i = 0"
    with i(3) assms(2) show False by simp
  qed
  moreover have "i \<noteq> Suc 0"
  proof
    assume "i = Suc 0"
    with i(4) assms(2) show False by simp
  qed
  ultimately obtain j where j: "i = Suc (Suc j)"
    by (metis not0_implies_Suc)
  with i have "j < length r" "startsWith (r ! j) ''-''" "\<not> known (r ! j)"
    "j = 0 \<or> \<not> known (r ! (j - 1))"
    by (auto simp: nth_Cons split: nat.splits)
  then show ?thesis unfolding strayFlag_def by blast
qed

lemma strayFlag_Cons_other:
  assumes "strayFlag known (a # r)" and "\<not> startsWith a ''-''"
  shows "strayFlag known r"
proof -
  from assms(1) obtain i where i: "i < length (a # r)"
    "startsWith ((a # r) ! i) ''-''" "\<not> known ((a # r) ! i)"
    "i = 0 \<or> \<not> known ((a # r) ! (i - 1))"
    by (auto simp: strayFlag_def)
  have "i \<noteq> 0"
  proof
    assume "i = 0"
    with i(2) assms(2) show False by simp
  qed
  then obtain j where j: "i = Suc j" by (cases i) auto
  with i have "j < length r" "startsWith (r ! j) ''-''" "\<not> known (r ! j)"
    "j = 0 \<or> \<not> known (r ! (j - 1))"
    by (auto simp: nth_Cons split: nat.splits)
  then show ?thesis unfolding strayFlag_def by blast
qed

lemma strayFlag_single_known: "known a \<Longrightarrow> \<not> strayFlag known [a]"
  by (auto simp: strayFlag_def)

declare exec_parseArgs.simps [simp del]

lemma exec_parse_stray:
  "strayFlag exec_knownOption args \<Longrightarrow> truthy (errorMessage (exec_parseArgs args v))"
proof (induction "length args" arbitrary: args v rule: less_induct)
  case less
  show ?case
  proof (cases "truthy (errorMessage v)")
    case True
    then show ?thesis by (simp add: exec_parse_stops)
  next
    case noerr: False
    show ?thesis
    proof (cases args)
      case Nil
      with less.prems show ?thesis by (simp add: strayFlag_def)
    next
      case (Cons a r)
      note args = this
      show ?thesis
      proof (cases "exec_knownOption a")
        case known: True
        show ?thesis
        proof (cases r)
          case Nil
          with args known less.prems strayFlag_single_known[of exec_knownOption a]
          show ?thesis by simp
        next
          case (Cons x r')
          from exec_parse_known[OF known noerr, of x r'] obtain v' where
            v': "exec_parseArgs (a # x # r') v = exec_parseArgs r' v'" by blast
          from less.prems args Cons known
          have stray: "strayFlag exec_knownOption r'"
            by (simp add: strayFlag_Cons_known)
          have len: "length r' < length args" by (simp add: args Cons)
          from less.hyps[OF len stray, of v'] show ?thesis
            by (simp only: args Cons v')
        qed
      next
        case unknown: False
        show ?thesis
        proof (cases "startsWith a ''-''")
          case True
          have "truthy (errorMessage (v\<lparr>errorMessage := Some (unrecognizedOption a)\<rparr>))"
            by (simp add: truthy_def unrecognizedOption_def)
          then show ?thesis
            by (simp only: args exec_parse_flag[OF True unknown noerr, of r])
        next
          case False
          from exec_parse_positional[OF False noerr, of r] obtain v' where
            v': "exec_parseArgs (a # r) v = exec_parseArgs r v'" by blast
          from less.prems args False have stray: "strayFlag exec_knownOption r"
            by (simp add: strayFlag_Cons_other)
          have len: "length r < length args" by (simp add: args)
          from less.hyps[OF len stray, of v'] show ?thesis
            by (simp only: args v')
        qed
      qed
    qed
  qed
qed

lemma usageError_message:
  "m \<noteq> [] \<Longrightarrow>
   usageError \<lparr>stderrWrites = [m @ endl], stdoutPipes = [], exitCodes = [2],
               clientCalls = [], uncaught = False\<rparr>"
  by (simp add: usageError_def endsWith_append) (simp add: endl_def)

lemma exec_check_keeps_error:
  "truthy (errorMessage (exec_parseArgs (drop 1 argv)
      \<lparr>errorMessage = None, hubAddress = None, targetUrlString = None,
       cacertFilePath = None, userName = None, userPasswordFilePath = None,
       userCertFilePath = None, userKeyFilePath = None\<rparr>)) \<Longrightarrow>
   truthy (errorMessage (exec_checkArgs argv))"
  by (simp add: exec_checkArgs_def Let_def)

lemma exec_check_missing:
  "\<not> truthy (hubAddress (exec_checkArgs argv)) \<or> \<not> truthy (targetUrlString (exec_checkArgs argv))
   \<Longrightarrow> truthy (errorMessage (exec_checkArgs argv))"
  by (auto simp: exec_checkArgs_def Let_def truthy_def split: if_splits)

lemma exec_main_usage:
  assumes "truthy (errorMessage (exec_checkArgs argv))"
  shows "usageError (exec_main hub argv)"
proof -
  from assms obtain m where m: "errorMessage (exec_checkArgs argv) = Some m" "m \<noteq> []"
    by (auto simp: truthy_Some)
  then have "nonEmpty (errorMessage (exec_checkArgs argv)) = Some m"
    by (simp add: nonEmpty_Some)
  then show ?thesis
    by (simp add: exec_main_def Let_def usageError_message[OF m(2)])
qed

lemma exec_main_runs:
  assumes ok: "\<not> truthy (errorMessage (exec_checkArgs argv))"
    and ctor: "\<forall>a opts. \<not> constructorThrows hub a opts"
  shows "\<exists>url. targetUrlString (exec_checkArgs argv) = Some url \<and> exec_main hub argv =
     (case signInSettles hub of
        RejectedWith e \<Rightarrow> exec_errorHandler [ClientSignIn] e
      | Fulfilled message \<Rightarrow>
          (case nonEmpty message of
             Some m \<Rightarrow> exec_errorHandler [ClientSignIn]
                         (StringValue (''Hub sign-in rejected: '' @ m))
           | None \<Rightarrow>
               (case fetchSettles hub url of
                  Fulfilled body \<Rightarrow>
                    \<lparr>stderrWrites = [], stdoutPipes = [body], exitCodes = [0],
                     clientCalls = [ClientSignIn, ClientFetch url], uncaught = False\<rparr>
                | RejectedWith e \<Rightarrow>
                    exec_errorHandler [ClientSignIn, ClientFetch url] e)))"
proof -
  from ok exec_check_missing[of argv]
  have "truthy (hubAddress (exec_checkArgs argv))" "truthy (targetUrlString (exec_checkArgs argv))"
    by blast+
  then obtain h url where hu: "hubAddress (exec_checkArgs argv) = Some h" "h \<noteq> []"
    "targetUrlString (exec_checkArgs argv) = Some url" "url \<noteq> []"
    by (auto simp: truthy_Some)
  then have ne: "nonEmpty (Some h) = Some h" "nonEmpty (Some url) = Some url"
    by (simp_all add: nonEmpty_Some)
  from ok have e: "nonEmpty (errorMessage (exec_checkArgs argv)) = None"
    by (simp add: nonEmpty_None)
  show ?thesis
    by (rule exI[of _ url]) (simp add: hu exec_main_def Let_def ne e ctor)
qed

lemma runtimeFailure_handler: "runtimeFailure (toString_error e) (exec_errorHandler calls e)"
  by (simp add: runtimeFailure_def exec_errorHandler_def)

lemma http_parse_stops: "truthy (http_errorMessage v) \<Longrightarrow> http_parseArgs args v = v"
  by (cases args) simp_all

lemma http_parse_known:
  assumes "http_knownOption a" and "\<not> truthy (http_errorMessage v)"
  shows "\<exists>v'. http_parseArgs (a # x # r) v = http_parseArgs r v'"
  using assms by (simp add: http_knownOption_def) blast

lemma http_parse_flag:
  assumes "startsWith a ''-''" and "\<not> http_knownOption a"
    and "\<not> truthy (http_errorMessage v)"
  shows "http_parseArgs (a # r) v = v\<lparr>http_errorMessage := Some (unrecognizedOption a)\<rparr>"
proof -
  have "http_parseArgs (a # r) v
          = http_parseArgs r (v\<lparr>http_errorMessage := Some (unrecognizedOption a)\<rparr>)"
    using assms by (simp add: http_knownOption_def)
  also have "\<dots> = v\<lparr>http_errorMessage := Some (unrecognizedOption a)\<rparr>"
    by (rule http_parse_stops) (simp add: truthy_def unrecognizedOption_def)
  finally show ?thesis .
qed

lemma http_parse_positional:
  assumes "\<not> startsWith a ''-''" and "\<not> truthy (http_errorMessage v)"
  shows "\<exists>v'. http_parseArgs (a # r) v = http_parseArgs r v'"
proof -
  from assms(1) have "a \<noteq> ''--cacert''" by (auto simp: startsWith_def)
  with assms have "http_parseArgs (a # r) v
      = http_parseArgs r
          (if http_targetUrlString v = None then v\<lparr>http_targetUrlString := Some a\<rparr>
           else v\<lparr>http_errorMessage := Some (unexpectedArgument a)\<rparr>)"
    by simp
  then show ?thesis by (rule exI)
qed

declare http_parseArgs.simps [simp del]

lemma http_parse_stray:
  "strayFlag http_knownOption args \<Longrightarrow> truthy (http_errorMessage (http_parseArgs args v))"
proof (induction "length args" arbitrary: args v rule: less_induct)
  case less
  show ?case
  proof (cases "truthy (http_errorMessage v)")
    case True
    then show ?thesis by (simp add: http_parse_stops)
  next
    case noerr: False
    show ?thesis
    proof (cases args)
      case Nil
      with less.prems show ?thesis by (simp add: strayFlag_def)
    next
      case (Cons a r)
      note args = this
      show ?thesis
      proof (cases "http_knownOption a")
        case known: True
        show ?thesis
        proof (cases r)
          case Nil
          with args known less.prems strayFlag_single_known[of http_knownOption a]
          show ?thesis by simp
        next
          case (Cons x r')
          from http_parse_known[OF known noerr, of x r'] obtain v' where
            v': "http_parseArgs (a # x # r') v = http_parseArgs r' v'" by blast
          from less.prems args Cons known
          have stray: "strayFlag http_knownOption r'"
            by (simp add: strayFlag_Cons_known)
          have len: "length r' < length args" by (simp add: args Cons)
          from less.hyps[OF len stray, of v'] show ?thesis
            by (simp only: args Cons v')
        qed
      next
        case unknown: False
        show ?thesis
        proof (cases "startsWith a ''-''")
          case True
          have "truthy (http_errorMessage
                  (v\<lparr>http_errorMessage := Some (unrecognizedOption a)\<rparr>))"
            by (simp add: truthy_def unrecognizedOption_def)
          then show ?thesis
            by (simp only: args http_parse_flag[OF True unknown noerr, of r])
        next
          case False
          from http_parse_positional[OF False noerr, of r] obtain v' where
            v': "http_parseArgs (a # r) v = http_parseArgs r v'" by blast
          from less.prems args False have stray: "strayFlag http_knownOption r"
            by (simp add: strayFlag_Cons_other)
          have len: "length r < length args" by (simp add: args)
          from less.hyps[OF len stray, of v'] show ?thesis
            by (simp only: args v')
        qed
      qed
    qed
  qed
qed

lemma http_check_keeps_error:
  "truthy (http_errorMessage (http_parseArgs (drop 1 argv)
      \<lparr>http_errorMessage = None, http_targetUrlString = None,
       http_cacertFilePath = None\<rparr>)) \<Longrightarrow>
   truthy (http_errorMessage (http_checkArgs argv))"
  by (simp add: http_checkArgs_def Let_def)

lemma http_check_missing:
  "\<not> truthy (http_targetUrlString (http_checkArgs argv))
   \<Longrightarrow> truthy (http_errorMessage (http_checkArgs argv))"
  by (auto simp: http_checkArgs_def Let_def truthy_def split: if_splits)

lemma http_main_usage:
  assumes "truthy (http_errorMessage (http_checkArgs argv))"
  shows "usageError (http_main env argv)"
proof -
  from assms obtain m where m: "http_errorMessage (http_checkArgs argv) = Some m" "m \<noteq> []"
    by (auto simp: truthy_Some)
  then have "nonEmpty (http_errorMessage (http_checkArgs argv)) = Some m"
    by (simp add: nonEmpty_Some)
  then show ?thesis
    by (simp add: http_main_def Let_def usageError_message[OF m(2)])
qed

lemma http_main_runs:
  assumes ok: "\<not> truthy (http_errorMessage (http_checkArgs argv))"
    and url: "\<forall>u. urlAccepted env u"
    and rd: "\<forall>p m. readFileGives env p \<noteq> Inl m"
  shows "\<exists>url calls. http_targetUrlString (http_checkArgs argv) = Some url
           \<and> http_main env argv = http_doRequest env calls url"
proof -
  from ok http_check_missing[of argv]
  have "truthy (http_targetUrlString (http_checkArgs argv))" by blast
  then obtain u where u: "http_targetUrlString (http_checkArgs argv) = Some u" "u \<noteq> []"
    by (auto simp: truthy_Some)
  then have ne: "nonEmpty (Some u) = Some u" by (simp add: nonEmpty_Some)
  from ok have e: "nonEmpty (http_errorMessage (http_checkArgs argv)) = None"
    by (simp add: nonEmpty_None)
  have "\<exists>calls. http_main env argv = http_doRequest env calls u"
  proof (cases "nonEmpty (http_cacertFilePath (http_checkArgs argv))")
    case None
    then have "http_main env argv = http_doRequest env [] u"
      by (simp add: http_main_def Let_def e u ne url)
    then show ?thesis by (rule exI)
  next
    case (Some path)
    from rd obtain d where "readFileGives env path = Inr d"
      by (cases "readFileGives env path") auto
    with Some have "http_main env argv = http_doRequest env [ReadFile path] u"
      by (simp add: http_main_def Let_def e u ne url)
    then show ?thesis by (rule exI)
  qed
  with u(1) show ?thesis by blast
qed

lemma http_request_fails:
  "requestSettles env url = Rejected e \<Longrightarrow>
   runtimeFailure (errorText env e) (http_doRequest env calls url)"
  by (simp add: http_doRequest_def runtimeFailure_def)

lemma http_request_succeeds:
  "requestSettles env url = Resolved body \<Longrightarrow> success body (http_doRequest env calls url)"
  by (simp add: http_doRequest_def success_def)

text \<open>
  Claim C7 says that for every argument vector an unrecognized flag, that is an
  argument that starts with a dash and is no known option, ends the run with status 2
  and without a request. The argument behind an option name is taken as the value of
  that option, whatever it looks like: in \<open>exec --hubuser -bob hub:7340 /index.xml\<close>
  the argument \<open>-bob\<close> is the user name, and with a hub that accepts the sign-in and
  serves the path the run signs in, fetches and ends with status 0.
\<close>

theorem flag_as_option_value_is_accepted:
  "startsWith ''-bob'' ''-'' \<and> \<not> exec_knownOption ''-bob''
   \<and> userName (exec_checkArgs [''exec'', ''--hubuser'', ''-bob'', ''hub:7340'', ''/index.xml''])
       = Some ''-bob''
   \<and> exec_main \<lparr>constructorThrows = (\<lambda>a opts. False), signInSettles = Fulfilled None,
                 fetchSettles = (\<lambda>path. Fulfilled ''body'')\<rparr>
        [''exec'', ''--hubuser'', ''-bob'', ''hub:7340'', ''/index.xml'']
     = \<lparr>stderrWrites = [], stdoutPipes = [''body''], exitCodes = [0],
        clientCalls = [ClientSignIn, ClientFetch ''/index.xml''], uncaught = False\<rparr>"
  by (simp add: exec_main_def exec_checkArgs_def exec_parseArgs.simps startsWith_def
      exec_knownOption_def truthy_def nonEmpty_def)

text \<open>
  Claim C7, amended: in both front ends, an unrecognized flag that does not directly
  follow the name of a known option (where it would be that option's value), or a
  required positional argument that is missing or empty, ends the run with status 2,
  one error message on the error stream and no call on the client. When the arguments
  are accepted and the client can be made, a sign-in that is rejected or that fails, or
  a fetch that fails, ends the run with status 1 and the error message on the error
  stream, and a fetch that succeeds ends it with status 0 and the body on the output
  stream.
\<close>

theorem cli_exit_status:
  "(strayFlag exec_knownOption (drop 1 argv)
      \<or> \<not> truthy (hubAddress (exec_checkArgs argv))
      \<or> \<not> truthy (targetUrlString (exec_checkArgs argv))
      \<longrightarrow> usageError (exec_main hub argv))
   \<and> (\<not> truthy (errorMessage (exec_checkArgs argv))
        \<and> (\<forall>a opts. \<not> constructorThrows hub a opts) \<longrightarrow>
        (\<forall>e. signInSettles hub = RejectedWith e \<longrightarrow>
              runtimeFailure (toString_error e) (exec_main hub argv))
      \<and> (\<forall>m. signInSettles hub = Fulfilled (Some m) \<and> m \<noteq> [] \<longrightarrow>
              runtimeFailure (''Hub sign-in rejected: '' @ m) (exec_main hub argv))
      \<and> (\<forall>msg url e. signInSettles hub = Fulfilled msg \<and> \<not> truthy msg
              \<and> targetUrlString (exec_checkArgs argv) = Some url
              \<and> fetchSettles hub url = RejectedWith e \<longrightarrow>
              runtimeFailure (toString_error e) (exec_main hub argv))
      \<and> (\<forall>msg url body. signInSettles hub = Fulfilled msg \<and> \<not> truthy msg
              \<and> targetUrlString (exec_checkArgs argv) = Some url
              \<and> fetchSettles hub url = Fulfilled body \<longrightarrow>
              success body (exec_main hub argv)))
   \<and> (strayFlag http_knownOption (drop 1 hargv)
        \<or> \<not> truthy (http_targetUrlString (http_checkArgs hargv))
        \<longrightarrow> usageError (http_main env hargv))
   \<and> (\<not> truthy (http_errorMessage (http_checkArgs hargv))
        \<and> (\<forall>u. urlAccepted env u) \<and> (\<forall>p m. readFileGives env p \<noteq> Inl m) \<longrightarrow>
        (\<forall>url e. http_targetUrlString (http_checkArgs hargv) = Some url
              \<and> requestSettles env url = Rejected e \<longrightarrow>
              runtimeFailure (errorText env e) (http_main env hargv))
      \<and> (\<forall>url body. http_targetUrlString (http_checkArgs hargv) = Some url
              \<and> requestSettles env url = Resolved body \<longrightarrow>
              success body (http_main env hargv)))"
proof (intro conjI)
  show "strayFlag exec_knownOption (drop 1 argv)
      \<or> \<not> truthy (hubAddress (exec_checkArgs argv))
      \<or> \<not> truthy (targetUrlString (exec_checkArgs argv))
      \<longrightarrow> usageError (exec_main hub argv)"
    using exec_parse_stray[of "drop 1 argv"] exec_check_keeps_error[of argv]
      exec_check_missing[of argv] exec_main_usage[of argv hub]
    by blast
next
  show "\<not> truthy (errorMessage (exec_checkArgs argv))
        \<and> (\<forall>a opts. \<not> constructorThrows hub a opts) \<longrightarrow>
        (\<forall>e. signInSettles hub = RejectedWith e \<longrightarrow>
              runtimeFailure (toString_error e) (exec_main hub argv))
      \<and> (\<forall>m. signInSettles hub = Fulfilled (Some m) \<and> m \<noteq> [] \<longrightarrow>
              runtimeFailure (''Hub sign-in rejected: '' @ m) (exec_main hub argv))
      \<and> (\<forall>msg url e. signInSettles hub = Fulfilled msg \<and> \<not> truthy msg
              \<and> targetUrlString (exec_checkArgs argv) = Some url
              \<and> fetchSettles hub url = RejectedWith e \<longrightarrow>
              runtimeFailure (toString_error e) (exec_main hub argv))
      \<and> (\<forall>msg url body. signInSettles hub = Fulfilled msg \<and> \<not> truthy msg
              \<and> targetUrlString (exec_checkArgs argv) = Some url
              \<and> fetchSettles hub url = Fulfilled body \<longrightarrow>
              success body (exec_main hub argv))"
  proof (intro impI, elim conjE)
    assume ok: "\<not> truthy (errorMessage (exec_checkArgs argv))"
      and ctor: "\<forall>a opts. \<not> constructorThrows hub a opts"
    from exec_main_runs[OF ok ctor] obtain u where
      u: "targetUrlString (exec_checkArgs argv) = Some u" and
      run: "exec_main hub argv =
        (case signInSettles hub of
           RejectedWith e \<Rightarrow> exec_errorHandler [ClientSignIn] e
         | Fulfilled message \<Rightarrow>
             (case nonEmpty message of
                Some m \<Rightarrow> exec_errorHandler [ClientSignIn]
                            (StringValue (''Hub sign-in rejected: '' @ m))
              | None \<Rightarrow>
                  (case fetchSettles hub u of
                     Fulfilled body \<Rightarrow>
                       \<lparr>stderrWrites = [], stdoutPipes = [body], exitCodes = [0],
                        clientCalls = [ClientSignIn, ClientFetch u], uncaught = False\<rparr>
                   | RejectedWith e \<Rightarrow>
                       exec_errorHandler [ClientSignIn, ClientFetch u] e)))"
      by blast
    have a: "\<forall>e. signInSettles hub = RejectedWith e \<longrightarrow>
              runtimeFailure (toString_error e) (exec_main hub argv)"
      by (simp add: run runtimeFailure_handler)
    have b: "\<forall>m. signInSettles hub = Fulfilled (Some m) \<and> m \<noteq> [] \<longrightarrow>
              runtimeFailure (''Hub sign-in rejected: '' @ m) (exec_main hub argv)"
      using runtimeFailure_handler[of "StringValue (''Hub sign-in rejected: '' @ m)" for m]
      by (auto simp: run nonEmpty_def truthy_def)
    have c: "\<forall>msg url e. signInSettles hub = Fulfilled msg \<and> \<not> truthy msg
              \<and> targetUrlString (exec_checkArgs argv) = Some url
              \<and> fetchSettles hub url = RejectedWith e \<longrightarrow>
              runtimeFailure (toString_error e) (exec_main hub argv)"
      by (auto simp: run u nonEmpty_def runtimeFailure_handler)
    have d: "\<forall>msg url body. signInSettles hub = Fulfilled msg \<and> \<not> truthy msg
              \<and> targetUrlString (exec_checkArgs argv) = Some url
              \<and> fetchSettles hub url = Fulfilled body \<longrightarrow>
              success body (exec_main hub argv)"
      by (auto simp: run u nonEmpty_def success_def)
    from a b c d show "(\<forall>e. signInSettles hub = RejectedWith e \<longrightarrow>
              runtimeFailure (toString_error e) (exec_main hub argv))
      \<and> (\<forall>m. signInSettles hub = Fulfilled (Some m) \<and> m \<noteq> [] \<longrightarrow>
              runtimeFailure (''Hub sign-in rejected: '' @ m) (exec_main hub argv))
      \<and> (\<forall>msg url e. signInSettles hub = Fulfilled msg \<and> \<not> truthy msg
              \<and> targetUrlString (exec_checkArgs argv) = Some url
              \<and> fetchSettles hub url = RejectedWith e \<longrightarrow>
              runtimeFailure (toString_error e) (exec_main hub argv))
      \<and> (\<forall>msg url body. signInSettles hub = Fulfilled msg \<and> \<not> truthy msg
              \<and> targetUrlString (exec_checkArgs argv) = Some url
              \<and> fetchSettles hub url = Fulfilled body \<longrightarrow>
              success body (exec_main hub argv))"
      by (intro conjI)
  qed
next
  show "strayFlag http_knownOption (drop 1 hargv)
        \<or> \<not> truthy (http_targetUrlString (http_checkArgs hargv))
        \<longrightarrow> usageError (http_main env hargv)"
    using http_parse_stray[of "drop 1 hargv"] http_check_keeps_error[of hargv]
      http_check_missing[of hargv] http_main_usage[of hargv env]
    by blast
next
  show "\<not> truthy (http_errorMessage (http_checkArgs hargv))
        \<and> (\<forall>u. urlAccepted env u) \<and> (\<forall>p m. readFileGives env p \<noteq> Inl m) \<longrightarrow>
        (\<forall>url e. http_targetUrlString (http_checkArgs hargv) = Some url
              \<and> requestSettles env url = Rejected e \<longrightarrow>
              runtimeFailure (errorText env e) (http_main env hargv))
      \<and> (\<forall>url body. http_targetUrlString (http_checkArgs hargv) = Some url
              \<and> requestSettles env url = Resolved body \<longrightarrow>
              success body (http_main env hargv))"
  proof (intro impI, elim conjE)
    assume ok: "\<not> truthy (http_errorMessage (http_checkArgs hargv))"
      and acc: "\<forall>u. urlAccepted env u" and rd: "\<forall>p m. readFileGives env p \<noteq> Inl m"
    from http_main_runs[OF ok acc rd] obtain u calls where
      u: "http_targetUrlString (http_checkArgs hargv) = Some u" and
      run: "http_main env hargv = http_doRequest env calls u"
      by blast
    show "(\<forall>url e. http_targetUrlString (http_checkArgs hargv) = Some url
              \<and> requestSettles env url = Rejected e \<longrightarrow>
              runtimeFailure (errorText env e) (http_main env hargv))
      \<and> (\<forall>url body. http_targetUrlString (http_checkArgs hargv) = Some url
              \<and> requestSettles env url = Resolved body \<longrightarrow>
              success body (http_main env hargv))"
      by (auto simp: u run http_request_fails http_request_succeeds)
  qed
qed

theorem cli_exit_status_witness:
  "strayFlag exec_knownOption (drop 1 [''exec'', ''-x'', ''hub:7340'', ''/index.xml''])
   \<and> usageError (exec_main
        \<lparr>constructorThrows = (\<lambda>a opts. False), signInSettles = Fulfilled None,
         fetchSettles = (\<lambda>path. Fulfilled ''body'')\<rparr>
        [''exec'', ''-x'', ''hub:7340'', ''/index.xml''])
   \<and> \<not> truthy (targetUrlString (exec_checkArgs [''exec'', ''hub:7340'']))
   \<and> usageError (exec_main
        \<lparr>constructorThrows = (\<lambda>a opts. False), signInSettles = Fulfilled None,
         fetchSettles = (\<lambda>path. Fulfilled ''body'')\<rparr>
        [''exec'', ''hub:7340''])
   \<and> runtimeFailure ''Error: connect ECONNREFUSED'' (exec_main
        \<lparr>constructorThrows = (\<lambda>a opts. False),
         signInSettles = RejectedWith (ErrorObject ''Error'' ''connect ECONNREFUSED''),
         fetchSettles = (\<lambda>path. Fulfilled ''body'')\<rparr>
        [''exec'', ''hub:7340'', ''/index.xml''])
   \<and> runtimeFailure ''Hub sign-in rejected: Forbidden'' (exec_main
        \<lparr>constructorThrows = (\<lambda>a opts. False), signInSettles = Fulfilled (Some ''Forbidden''),
         fetchSettles = (\<lambda>path. Fulfilled ''body'')\<rparr>
        [''exec'', ''hub:7340'', ''/index.xml''])
   \<and> runtimeFailure ''not found'' (exec_main
        \<lparr>constructorThrows = (\<lambda>a opts. False), signInSettles = Fulfilled None,
         fetchSettles = (\<lambda>path. RejectedWith (StringValue ''not found''))\<rparr>
        [''exec'', ''hub:7340'', ''/index.xml''])
   \<and> success ''body'' (exec_main
        \<lparr>constructorThrows = (\<lambda>a opts. False), signInSettles = Fulfilled None,
         fetchSettles = (\<lambda>path. Fulfilled ''body'')\<rparr>
        [''exec'', ''hub:7340'', ''/index.xml''])
   \<and> usageError (http_main
        \<lparr>urlAccepted = (\<lambda>u. True), readFileGives = (\<lambda>p. Inr []),
         requestSettles = (\<lambda>u. Resolved ''body''),
         errorText = (\<lambda>e. errorToString e False None)\<rparr>
        [''http'', ''--verbose'', ''https://hub/''])
   \<and> usageError (http_main
        \<lparr>urlAccepted = (\<lambda>u. True), readFileGives = (\<lambda>p. Inr []),
         requestSettles = (\<lambda>u. Resolved ''body''),
         errorText = (\<lambda>e. errorToString e False None)\<rparr>
        [''http''])
   \<and> runtimeFailure ''timeout'' (http_main
        \<lparr>urlAccepted = (\<lambda>u. True), readFileGives = (\<lambda>p. Inr []),
         requestSettles = (\<lambda>u. Rejected (JSString ''timeout'')),
         errorText = (\<lambda>e. errorToString e False None)\<rparr>
        [''http'', ''https://hub/''])
   \<and> success ''body'' (http_main
        \<lparr>urlAccepted = (\<lambda>u. True), readFileGives = (\<lambda>p. Inr []),
         requestSettles = (\<lambda>u. Resolved ''body''),
         errorText = (\<lambda>e. errorToString e False None)\<rparr>
        [''http'', ''https://hub/''])"
proof -
  let ?ok = "\<lparr>constructorThrows = (\<lambda>a opts. False), signInSettles = Fulfilled None,
         fetchSettles = (\<lambda>path. Fulfilled ''body'')\<rparr>"
  let ?refused = "\<lparr>constructorThrows = (\<lambda>a opts. False),
         signInSettles = RejectedWith (ErrorObject ''Error'' ''connect ECONNREFUSED''),
         fetchSettles = (\<lambda>path. Fulfilled ''body'')\<rparr>"
  let ?forbidden = "\<lparr>constructorThrows = (\<lambda>a opts. False),
         signInSettles = Fulfilled (Some ''Forbidden''),
         fetchSettles = (\<lambda>path. Fulfilled ''body'')\<rparr>"
  let ?nofetch = "\<lparr>constructorThrows = (\<lambda>a opts. False), signInSettles = Fulfilled None,
         fetchSettles = (\<lambda>path. RejectedWith (StringValue ''not found''))\<rparr>"
  let ?web = "\<lparr>urlAccepted = (\<lambda>u. True), readFileGives = (\<lambda>p. Inr []),
         requestSettles = (\<lambda>u. Resolved ''body''),
         errorText = (\<lambda>e. errorToString e False None)\<rparr>"
  let ?down = "\<lparr>urlAccepted = (\<lambda>u. True), readFileGives = (\<lambda>p. Inr []),
         requestSettles = (\<lambda>u. Rejected (JSString ''timeout'')),
         errorText = (\<lambda>e. errorToString e False None)\<rparr>"
  let ?A = "[''exec'', ''hub:7340'', ''/index.xml'']"
  let ?B = "[''http'', ''https://hub/'']"
  have s1: "strayFlag exec_knownOption (drop 1 [''exec'', ''-x'', ''hub:7340'', ''/index.xml''])"
    unfolding strayFlag_def
    by (rule bexI[of _ 0]) (simp_all add: startsWith_def exec_knownOption_def)
  have s2: "strayFlag http_knownOption (drop 1 [''http'', ''--verbose'', ''https://hub/''])"
    unfolding strayFlag_def
    by (rule bexI[of _ 0]) (simp_all add: startsWith_def http_knownOption_def)
  have m1: "\<not> truthy (targetUrlString (exec_checkArgs [''exec'', ''hub:7340'']))"
    by (simp add: exec_checkArgs_def exec_parseArgs.simps startsWith_def truthy_def)
  have m2: "\<not> truthy (http_targetUrlString (http_checkArgs [''http'']))"
    by (simp add: http_checkArgs_def http_parseArgs.simps truthy_def)
  have a: "\<not> truthy (errorMessage (exec_checkArgs ?A))"
    "targetUrlString (exec_checkArgs ?A) = Some ''/index.xml''"
    by (simp_all add: exec_checkArgs_def exec_parseArgs.simps startsWith_def truthy_def)
  have b: "\<not> truthy (http_errorMessage (http_checkArgs ?B))"
    "http_targetUrlString (http_checkArgs ?B) = Some ''https://hub/''"
    by (simp_all add: http_checkArgs_def http_parseArgs.simps startsWith_def truthy_def)
  have n: "\<not> truthy None" by (simp add: truthy_def)
  from cli_exit_status[of "[''exec'', ''-x'', ''hub:7340'', ''/index.xml'']" ?ok
      "[''http'', ''--verbose'', ''https://hub/'']" ?web] s1 s2
  have 1: "usageError (exec_main ?ok [''exec'', ''-x'', ''hub:7340'', ''/index.xml''])"
    "usageError (http_main ?web [''http'', ''--verbose'', ''https://hub/''])"
    by blast+
  from cli_exit_status[of "[''exec'', ''hub:7340'']" ?ok "[''http'']" ?web] m1 m2
  have 2: "usageError (exec_main ?ok [''exec'', ''hub:7340''])"
    "usageError (http_main ?web [''http''])"
    by blast+
  have t: "errorToString (JSString ''timeout'') False None = ''timeout''"
    by (simp add: errorToString_def)
  from cli_exit_status[of ?A ?refused ?B ?down] a b
  have 3: "runtimeFailure ''Error: connect ECONNREFUSED'' (exec_main ?refused ?A)"
    "runtimeFailure ''timeout'' (http_main ?down ?B)"
    by (simp_all add: t)
  from cli_exit_status[of ?A ?forbidden ?B ?web] a b
  have 4: "runtimeFailure ''Hub sign-in rejected: Forbidden'' (exec_main ?forbidden ?A)"
    "success ''body'' (http_main ?web ?B)"
    by simp_all
  from cli_exit_status[of ?A ?nofetch ?B ?web] a n
  have 5: "runtimeFailure ''not found'' (exec_main ?nofetch ?A)"
    by simp
  from cli_exit_status[of ?A ?ok ?B ?web] a n
  have 6: "success ''body'' (exec_main ?ok ?A)"
    by simp
  from s1 m1 1 2 3 4 5 6 show ?thesis by (intro conjI)
qed

section \<open>Properties of the sign-in\<close>

lemma signIn_attempt:
  assumes "authState session = Unauthenticated \<or> (\<exists>r. authState session = Failed r)"
    and "credentialSpec session = Some spec"
  shows "signIn env session secrets =
     (case resolveCredential env spec secrets of
        (Inl ex, secrets', effs) \<Rightarrow>
          Some (Inl ex, session\<lparr>authState := Failed (Exception ex)\<rparr>, secrets', effs)
      | (Inr cred, secrets', effs) \<Rightarrow>
          (case requestSignIn env (Some cred) session of
             (r, session') \<Rightarrow> Some (r, session', secrets', effs)))"
  using assms by (auto simp: signIn_def)

text \<open>
  Claim C2: when the hub refuses the supplied credentials, \<open>signIn\<close> completes with a
  result that carries the refusal; when the server cannot be reached, it raises an
  exception. Both leave the session failed. The download command, which awaits the
  sign-in, sees the first as a promise resolved with \<open>false\<close> and the second as a
  rejected promise, so the two cases can be told apart.
\<close>

theorem signIn_rejection_is_a_result:
  assumes valid: "authState session = Unauthenticated \<or> (\<exists>r. authState session = Failed r)"
    and spec: "credentialSpec session = Some spec"
    and cred: "resolveCredential env spec secrets = (Inr cred, secrets', effs)"
  shows "(transport env (Some cred) = Resolved (Declined reason) \<longrightarrow>
            signIn env session secrets =
              Some (Inr (AuthRejected reason),
                    session\<lparr>authState := Failed (Rejection reason)\<rparr>, secrets', effs))
     \<and> (transport env (Some cred) = Rejected e \<longrightarrow>
            signIn env session secrets =
              Some (Inl (ConnectionError e),
                    session\<lparr>authState := Failed (Exception (ConnectionError e))\<rparr>,
                    secrets', effs))
     \<and> signInAsBoolean (Inr (AuthRejected reason)) = Resolved False
     \<and> signInAsBoolean (Inl (ConnectionError e)) = Rejected e"
  by (simp add: signIn_attempt[OF valid spec] cred requestSignIn_def)

theorem signIn_rejection_is_a_result_witness:
  "signIn \<lparr>fileContents = (\<lambda>p. Some ''secret''), passwordInput = Resolved None,
           transport = (\<lambda>c. Resolved (Declined ''Forbidden''))\<rparr>
      \<lparr>authState = Unauthenticated, sessionToken = None,
       credentialSpec = Some (PasswordFile ''pw.txt'')\<rparr> Map.empty
     = Some (Inr (AuthRejected ''Forbidden''),
             \<lparr>authState = Failed (Rejection ''Forbidden''), sessionToken = None,
              credentialSpec = Some (PasswordFile ''pw.txt'')\<rparr>, Map.empty, [])
   \<and> signIn \<lparr>fileContents = (\<lambda>p. Some ''secret''), passwordInput = Resolved None,
             transport = (\<lambda>c. Rejected (JSString ''ECONNREFUSED''))\<rparr>
      \<lparr>authState = Unauthenticated, sessionToken = None,
       credentialSpec = Some (PasswordFile ''pw.txt'')\<rparr> Map.empty
     = Some (Inl (ConnectionError (JSString ''ECONNREFUSED'')),
             \<lparr>authState = Failed (Exception (ConnectionError (JSString ''ECONNREFUSED''))),
              sessionToken = None, credentialSpec = Some (PasswordFile ''pw.txt'')\<rparr>,
             Map.empty, [])"
proof -
  let ?declines = "\<lparr>fileContents = (\<lambda>p. Some ''secret''), passwordInput = Resolved None,
           transport = (\<lambda>c. Resolved (Declined ''Forbidden''))\<rparr>"
  let ?down = "\<lparr>fileContents = (\<lambda>p. Some ''secret''), passwordInput = Resolved None,
             transport = (\<lambda>c. Rejected (JSString ''ECONNREFUSED''))\<rparr>"
  let ?s = "\<lparr>authState = Unauthenticated, sessionToken = None,
       credentialSpec = Some (PasswordFile ''pw.txt'')\<rparr>"
  have v: "authState ?s = Unauthenticated \<or> (\<exists>r. authState ?s = Failed r)" by simp
  have sp: "credentialSpec ?s = Some (PasswordFile ''pw.txt'')" by simp
  have c1: "resolveCredential ?declines (PasswordFile ''pw.txt'') Map.empty
              = (Inr (Password ''secret''), Map.empty, [])"
    by (simp add: resolveCredential_def)
  have c2: "resolveCredential ?down (PasswordFile ''pw.txt'') Map.empty
              = (Inr (Password ''secret''), Map.empty, [])"
    by (simp add: resolveCredential_def)
  from signIn_rejection_is_a_result[OF v sp c1, of "''Forbidden''"]
    signIn_rejection_is_a_result[OF v sp c2, of _ "JSString ''ECONNREFUSED''"]
  show ?thesis by simp
qed

lemma hubpasswd_rejected:
  assumes "fst (hubpasswd_call f inputValue secrets) = Rejected e"
  shows "hubpasswd_call f inputValue secrets =
     (Rejected e, secrets,
      [SecretGet (passwordStorageKeyString f), ShowPasswordInputBox (passwordPrompt f)])"
  using assms
  by (auto simp: hubpasswd_call_def Let_def split: option.splits settled.splits)

lemma signInBlock_rejected:
  "signInBlock (Rejected e) storageKey secrets =
     (Some (newError (if errorToString e False None \<noteq> []
                      then ''CodeSonar hub sign-in error: '' @ errorToString e False None
                      else ''CodeSonar hub sign-in error'')),
      (case nonEmpty storageKey of None \<Rightarrow> secrets | Some k \<Rightarrow> secrets(k := None)),
      (case nonEmpty storageKey of None \<Rightarrow> [] | Some k \<Rightarrow> [SecretDelete k]))"
  by (simp add: signInBlock_def Let_def split: option.splits)

text \<open>
  Claim C3: when the promise of the interactive password function is rejected, as it is
  when the user dismisses the password box, \<open>signIn\<close> fails with a cancellation that
  carries the rejection, and the session is left failed. In the download command the
  failure reaches the caller as a thrown error whose message holds the message of the
  rejection. Nothing is written to the secret storage on the way: no effect of the
  attempt is a store, and every key is as it was or has no secret.
\<close>

theorem cancelled_password_propagates:
  assumes valid: "authState session = Unauthenticated \<or> (\<exists>r. authState session = Failed r)"
    and spec: "credentialSpec session = Some (InteractivePassword f)"
    and rej: "fst (hubpasswd_call f (passwordInput env) secrets) = Rejected e"
  shows "(\<exists>effs. signIn env session secrets =
              Some (Inl (AuthCancelled e),
                    session\<lparr>authState := Failed (Exception (AuthCancelled e))\<rparr>,
                    secrets, effs)
            \<and> (\<forall>k s. SecretStore k s \<notin> set effs))
     \<and> (session = newCSHubClient obj (hubClientOptions su) \<and> hubAddressObject su = Some obj
          \<longrightarrow> (\<exists>secrets'' effs''. signInPhase env su secrets =
                  (Some (newError
                     (if errorToString e False None \<noteq> []
                      then ''CodeSonar hub sign-in error: '' @ errorToString e False None
                      else ''CodeSonar hub sign-in error'')), secrets'', effs'')
                \<and> (\<forall>k s. SecretStore k s \<notin> set effs'')
                \<and> (\<forall>k. secrets'' k = None \<or> secrets'' k = secrets k)))"
proof -
  let ?effs = "[SecretGet (passwordStorageKeyString f), ShowPasswordInputBox (passwordPrompt f)]"
  have r: "resolveCredential env (InteractivePassword f) secrets
             = (Inl (AuthCancelled e), secrets, ?effs)"
    by (simp add: resolveCredential_def hubpasswd_rejected[OF rej])
  have s: "signIn env session secrets =
              Some (Inl (AuthCancelled e),
                    session\<lparr>authState := Failed (Exception (AuthCancelled e))\<rparr>,
                    secrets, ?effs)"
    by (simp add: signIn_attempt[OF valid spec] r)
  have 1: "\<exists>effs. signIn env session secrets =
              Some (Inl (AuthCancelled e),
                    session\<lparr>authState := Failed (Exception (AuthCancelled e))\<rparr>,
                    secrets, effs)
            \<and> (\<forall>k s. SecretStore k s \<notin> set effs)"
    by (rule exI[of _ ?effs]) (simp add: s)
  have 2: "\<exists>secrets'' effs''. signInPhase env su secrets =
                  (Some (newError
                     (if errorToString e False None \<noteq> []
                      then ''CodeSonar hub sign-in error: '' @ errorToString e False None
                      else ''CodeSonar hub sign-in error'')), secrets'', effs'')
                \<and> (\<forall>k s. SecretStore k s \<notin> set effs'')
                \<and> (\<forall>k. secrets'' k = None \<or> secrets'' k = secrets k)"
    if "session = newCSHubClient obj (hubClientOptions su)" "hubAddressObject su = Some obj"
  proof -
    from that s have p: "signInPhase env su secrets =
        (Some (newError
                     (if errorToString e False None \<noteq> []
                      then ''CodeSonar hub sign-in error: '' @ errorToString e False None
                      else ''CodeSonar hub sign-in error'')),
         (case nonEmpty (passwordStorageKey su) of
            None \<Rightarrow> secrets | Some k \<Rightarrow> secrets(k := None)),
         ?effs @ (case nonEmpty (passwordStorageKey su) of
                    None \<Rightarrow> [] | Some k \<Rightarrow> [SecretDelete k]))"
      by (simp add: signInPhase_def signInBlock_rejected)
    show ?thesis
      unfolding p
      by (intro exI conjI, rule refl) (auto split: option.splits)
  qed
  from 1 2 show ?thesis by blast
qed

theorem cancelled_password_propagates_witness:
  "fst (hubpasswd_call
         \<lparr>passwordStorageKeyString = ''key'', username = ''alice'', address = ''hub:7340''\<rparr>
         (Resolved None) Map.empty)
     = Rejected (newError ''User cancelled password input.'')
   \<and> signInPhase
        \<lparr>fileContents = (\<lambda>p. None), passwordInput = Resolved None,
         transport = (\<lambda>c. Resolved (Confirmed None))\<rparr>
        \<lparr>hubAddressObject = Some \<lparr>protocol = None, hostname = ''hub'', port = Some 7340\<rparr>,
         hubClientOptions =
           \<lparr>cafile = None, hubuser = Some ''alice'', hubpwfile = None, hubcert = None,
            hubkey = None,
            hubpasswd = Some \<lparr>passwordStorageKeyString = ''key'', username = ''alice'',
                              address = ''hub:7340''\<rparr>\<rparr>,
         passwordStorageKey = Some ''key''\<rparr>
        Map.empty
     = (Some (newError ''CodeSonar hub sign-in error: User cancelled password input.''),
        Map.empty,
        [SecretGet ''key'',
         ShowPasswordInputBox
           (passwordPrompt \<lparr>passwordStorageKeyString = ''key'', username = ''alice'',
                            address = ''hub:7340''\<rparr>),
         SecretDelete ''key''])"
proof -
  let ?f = "\<lparr>passwordStorageKeyString = ''key'', username = ''alice'', address = ''hub:7340''\<rparr>"
  let ?env = "\<lparr>fileContents = (\<lambda>p. None), passwordInput = Resolved None,
         transport = (\<lambda>c. Resolved (Confirmed None))\<rparr>"
  let ?obj = "\<lparr>protocol = None, hostname = ''hub'', port = Some 7340\<rparr>"
  let ?su = "\<lparr>hubAddressObject = Some ?obj,
         hubClientOptions =
           \<lparr>cafile = None, hubuser = Some ''alice'', hubpwfile = None, hubcert = None,
            hubkey = None, hubpasswd = Some ?f\<rparr>,
         passwordStorageKey = Some ''key''\<rparr>"
  let ?session = "newCSHubClient ?obj (hubClientOptions ?su)"
  have v: "authState ?session = Unauthenticated \<or> (\<exists>r. authState ?session = Failed r)"
    by (simp add: newCSHubClient_def)
  have sp: "credentialSpec ?session = Some (InteractivePassword ?f)"
    by (simp add: newCSHubClient_def credentialOfOptions_def)
  have rj: "fst (hubpasswd_call ?f (passwordInput ?env) Map.empty)
              = Rejected (newError ''User cancelled password input.'')"
    by (simp add: hubpasswd_call_def)
  have ph: "signInPhase ?env ?su Map.empty
     = (Some (newError ''CodeSonar hub sign-in error: User cancelled password input.''),
        Map.empty,
        [SecretGet ''key'', ShowPasswordInputBox (passwordPrompt ?f), SecretDelete ''key''])"
    by (simp add: signInPhase_def signIn_def newCSHubClient_def credentialOfOptions_def
        resolveCredential_def hubpasswd_call_def signInBlock_def errorToString_def
        newError_def nonEmpty_def truthy_def)
  from cancelled_password_propagates[OF v sp rj, of ?obj ?su] rj ph
  show ?thesis by simp
qed

end
